theory Spec2Isabelle
  imports Complex_Main "HOL-Library.Sublist" "HOL-Library.Log_Nat"
begin

section \<open>JavaScript values used by the review pipeline\<close>

text \<open>
  The sources are \<^verbatim>\<open>extension/content.js\<close> (page adapter and star resolver),
  \<^verbatim>\<open>bookmarklet/truth-gap-bookmarklet.js\<close> (the same adapter and resolver, the
  orchestrator, the aggregator and the load-more session) and the extension popup script
  (the same orchestrator, the aggregator with the displayed-rating override, and the
  handlers of the two buttons).

  A JavaScript Number is a double. Its finite values are rationals, and the type below
  adds the two infinities and NaN; the sign of zero is left out. The exact operations
  come first; the operations of the engine round their exact result to the nearest
  double (\<open>round64\<close>). \<^verbatim>\<open>parseFloat\<close> rounds, and the aggregator is given with the
  rounded operations (\<open>calculateTruthGap64\<close>) next to its reading in exact arithmetic
  (\<open>calculateTruthGap\<close>). \<^verbatim>\<open>Math.round\<close>, \<^verbatim>\<open>Math.min\<close> and \<^verbatim>\<open>Math.max\<close> of
  doubles are exact.
  A JavaScript string is modelled as a \<^typ>\<open>string\<close>, one \<^typ>\<open>char\<close> for one UTF-16
  code unit, so the model covers the strings whose code units are below 256 and
  \<^const>\<open>length\<close> is the \<^verbatim>\<open>.length\<close> of the source.
\<close>

datatype jsnum = Num rat | PosInf | NegInf | NaN

text \<open>\<^verbatim>\<open>Math.round\<close>: the nearest integer, a tie going up.\<close>

fun js_round :: "jsnum \<Rightarrow> jsnum" where
  "js_round (Num q) = Num (of_int \<lfloor>q + 1 / 2\<rfloor>)"
| "js_round x = x"

text \<open>\<^verbatim>\<open>Math.max\<close> and \<^verbatim>\<open>Math.min\<close> of two numbers: NaN when either is NaN.\<close>

fun js_max :: "jsnum \<Rightarrow> jsnum \<Rightarrow> jsnum" where
  "js_max NaN _ = NaN"
| "js_max _ NaN = NaN"
| "js_max PosInf _ = PosInf"
| "js_max _ PosInf = PosInf"
| "js_max NegInf y = y"
| "js_max x NegInf = x"
| "js_max (Num a) (Num b) = Num (max a b)"

fun js_min :: "jsnum \<Rightarrow> jsnum \<Rightarrow> jsnum" where
  "js_min NaN _ = NaN"
| "js_min _ NaN = NaN"
| "js_min NegInf _ = NegInf"
| "js_min _ NegInf = NegInf"
| "js_min PosInf y = y"
| "js_min x PosInf = x"
| "js_min (Num a) (Num b) = Num (min a b)"

text \<open>Addition, subtraction and division of Numbers.\<close>

fun js_add :: "jsnum \<Rightarrow> jsnum \<Rightarrow> jsnum" where
  "js_add NaN _ = NaN"
| "js_add _ NaN = NaN"
| "js_add PosInf NegInf = NaN"
| "js_add NegInf PosInf = NaN"
| "js_add PosInf _ = PosInf"
| "js_add _ PosInf = PosInf"
| "js_add NegInf _ = NegInf"
| "js_add _ NegInf = NegInf"
| "js_add (Num a) (Num b) = Num (a + b)"

fun js_neg :: "jsnum \<Rightarrow> jsnum" where
  "js_neg (Num a) = Num (- a)"
| "js_neg PosInf = NegInf"
| "js_neg NegInf = PosInf"
| "js_neg NaN = NaN"

definition js_sub :: "jsnum \<Rightarrow> jsnum \<Rightarrow> jsnum" where
  "js_sub x y = js_add x (js_neg y)"

fun js_div :: "jsnum \<Rightarrow> jsnum \<Rightarrow> jsnum" where
  "js_div NaN _ = NaN"
| "js_div _ NaN = NaN"
| "js_div (Num a) (Num b) =
     (if b = 0 then (if a = 0 then NaN else if 0 < a then PosInf else NegInf)
      else Num (a / b))"
| "js_div (Num a) _ = Num 0"
| "js_div PosInf (Num b) = (if 0 \<le> b then PosInf else NegInf)"
| "js_div NegInf (Num b) = (if 0 \<le> b then NegInf else PosInf)"
| "js_div _ _ = NaN"

text \<open>A Number is falsy when it is zero or NaN (the left operand of \<^verbatim>\<open>||\<close>, of \<^verbatim>\<open>!\<close>).\<close>

fun truthy :: "jsnum \<Rightarrow> bool" where
  "truthy (Num q) = (q \<noteq> 0)"
| "truthy NaN = False"
| "truthy _ = True"

text \<open>\<^verbatim>\<open>x || y\<close> where \<^verbatim>\<open>x\<close> is a Number, \<^verbatim>\<open>undefined\<close> or \<^verbatim>\<open>null\<close> (here \<^const>\<open>None\<close>).\<close>

fun or_else :: "jsnum option \<Rightarrow> jsnum \<Rightarrow> jsnum" where
  "or_else None y = y"
| "or_else (Some x) y = (if truthy x then x else y)"

subsection \<open>Doubles\<close>

text \<open>
  The binade of a positive rational: the \<open>e\<close> with \<open>2 ^ e \<le> q < 2 ^ (e + 1)\<close>. With
  \<open>d\<close> the difference of the bit lengths of numerator and denominator, it is \<open>d\<close> or
  \<open>d - 1\<close>.
\<close>

definition binade :: "rat \<Rightarrow> int" where
  "binade q =
     (let d = bitlen (fst (quotient_of q)) - bitlen (snd (quotient_of q))
      in if 2 powi d \<le> q then d else d - 1)"

text \<open>The nearest integer, a tie going to the even one.\<close>

definition nearest_even :: "rat \<Rightarrow> int" where
  "nearest_even m =
     (let f = \<lfloor>m\<rfloor>; r = m - of_int f
      in if r < 1 / 2 then f else if 1 / 2 < r then f + 1 else if even f then f else f + 1)"

text \<open>
  The double nearest to a positive rational: 53 significant bits, exponents from -1022
  (below, the spacing stays \<open>2 ^ - 1074\<close>) to 1023 (above, infinity).
\<close>

definition nearest64 :: "rat \<Rightarrow> jsnum" where
  "nearest64 q =
     (let e = binade q
      in if 1023 < e then PosInf
         else
           (let u = 2 powi (max e (- 1022) - 52); m = nearest_even (q / u)
            in if e = 1023 \<and> m = 9007199254740992 then PosInf else Num (of_int m * u)))"

fun round64 :: "jsnum \<Rightarrow> jsnum" where
  "round64 (Num q) =
     (if q = 0 then Num 0 else if 0 < q then nearest64 q else js_neg (nearest64 (- q)))"
| "round64 x = x"

text \<open>\<^verbatim>\<open>+\<close>, \<^verbatim>\<open>-\<close> and \<^verbatim>\<open>/\<close> of the engine: the exact result, rounded.\<close>

definition add64 :: "jsnum \<Rightarrow> jsnum \<Rightarrow> jsnum" where
  "add64 x y = round64 (js_add x y)"

definition sub64 :: "jsnum \<Rightarrow> jsnum \<Rightarrow> jsnum" where
  "sub64 x y = round64 (js_sub x y)"

definition div64 :: "jsnum \<Rightarrow> jsnum \<Rightarrow> jsnum" where
  "div64 x y = round64 (js_div x y)"

subsection \<open>Strings\<close>

text \<open>White space as \<^verbatim>\<open>String.prototype.trim\<close>, \<^verbatim>\<open>parseFloat\<close> and the regular
  expression class \<^verbatim>\<open>\s\<close> see it, among the code units below 256.\<close>

definition is_space :: "char \<Rightarrow> bool" where
  "is_space c = (of_char c \<in> {9, 10, 11, 12, 13, 32, 160 :: nat})"

definition trim :: "string \<Rightarrow> string" where
  "trim s = rev (dropWhile is_space (rev (dropWhile is_space s)))"

definition is_digit :: "char \<Rightarrow> bool" where
  "is_digit c = (c \<in> set ''0123456789'')"

definition digit_val :: "char \<Rightarrow> nat" where
  "digit_val c = of_char c - 48"

text \<open>The value of a run of decimal digits, and of the digits after a decimal point.\<close>

definition digits_val :: "string \<Rightarrow> nat" where
  "digits_val ds = foldl (\<lambda>n c. 10 * n + digit_val c) 0 ds"

definition frac_val :: "string \<Rightarrow> rat" where
  "frac_val ds = of_nat (digits_val ds) / 10 ^ length ds"

text \<open>
  \<^verbatim>\<open>parseFloat\<close>: leading white space, an optional sign, then \<^verbatim>\<open>Infinity\<close> or a
  decimal literal (digits, an optional fraction, an optional exponent); the longest
  prefix that is a literal counts, and NaN is the result when there is none. The value
  of the literal is rounded to a double.
\<close>

definition parse_exponent :: "string \<Rightarrow> int" where
  "parse_exponent r =
     (case r of
        [] \<Rightarrow> 0
      | e # r1 \<Rightarrow>
          if e = CHR ''e'' \<or> e = CHR ''E'' then
            (case r1 of
               [] \<Rightarrow> 0
             | s # r2 \<Rightarrow>
                 if s = CHR ''-'' then
                   (if takeWhile is_digit r2 = [] then 0
                    else - int (digits_val (takeWhile is_digit r2)))
                 else if s = CHR ''+'' then
                   (if takeWhile is_digit r2 = [] then 0
                    else int (digits_val (takeWhile is_digit r2)))
                 else int (digits_val (takeWhile is_digit r1)))
          else 0)"

definition parse_unsigned :: "string \<Rightarrow> jsnum" where
  "parse_unsigned s =
     (if prefix ''Infinity'' s then PosInf
      else
        let ip = takeWhile is_digit s;
            r1 = dropWhile is_digit s;
            fp = (case r1 of [] \<Rightarrow> [] | c # r \<Rightarrow> if c = CHR ''.'' then takeWhile is_digit r else []);
            r2 = (case r1 of [] \<Rightarrow> [] | c # r \<Rightarrow> if c = CHR ''.'' then dropWhile is_digit r else r1)
        in if ip = [] \<and> fp = [] then NaN
           else round64 (Num ((of_nat (digits_val ip) + frac_val fp) * 10 powi parse_exponent r2)))"

definition parseFloat :: "string \<Rightarrow> jsnum" where
  "parseFloat s =
     (case dropWhile is_space s of
        [] \<Rightarrow> NaN
      | c # r \<Rightarrow>
          if c = CHR ''-'' then js_neg (parse_unsigned r)
          else if c = CHR ''+'' then parse_unsigned r
          else parse_unsigned (c # r))"

text \<open>\<^verbatim>\<open>parseInt\<close> of the one digit that \<^verbatim>\<open>(\d)\<close> captured.\<close>

definition parseInt_digit :: "char \<Rightarrow> jsnum" where
  "parseInt_digit c = Num (of_nat (digit_val c))"

subsection \<open>The regular expressions of the star resolver\<close>

text \<open>\<^verbatim>\<open>/a-star-(\d)/\<close>: the digit captured at the leftmost match.\<close>

definition digit_after :: "string \<Rightarrow> string \<Rightarrow> char option" where
  "digit_after p s =
     (if prefix p s then
        (case drop (length p) s of [] \<Rightarrow> None | d # _ \<Rightarrow> if is_digit d then Some d else None)
      else None)"

fun match_a_star :: "string \<Rightarrow> char option" where
  "match_a_star [] = None"
| "match_a_star (c # s) =
     (case digit_after ''a-star-'' (c # s) of
        Some d \<Rightarrow> Some d
      | None \<Rightarrow> match_a_star s)"

text \<open>
  \<^verbatim>\<open>(\d+(?:\.\d+)?)\<close> matched at the start of a string: the captured text and what
  follows it. The digit runs are greedy.
\<close>

definition number_at :: "string \<Rightarrow> (string \<times> string) option" where
  "number_at s =
     (let ip = takeWhile is_digit s; r1 = dropWhile is_digit s
      in if ip = [] then None
         else (case r1 of
                 [] \<Rightarrow> Some (ip, [])
               | c # r \<Rightarrow>
                   if c = CHR ''.'' \<and> takeWhile is_digit r \<noteq> []
                   then Some (ip @ c # takeWhile is_digit r, dropWhile is_digit r)
                   else Some (ip, r1)))"

text \<open>\<^verbatim>\<open>/(\d+(?:\.\d+)?)/\<close>: the leftmost match starts at the first digit.\<close>

definition match_number :: "string \<Rightarrow> string option" where
  "match_number s = map_option fst (number_at (dropWhile (\<lambda>c. \<not> is_digit c) s))"

text \<open>
  \<^verbatim>\<open>/(\d+(?:\.\d+)?)\s*(?:out of|\/)\s*5/i\<close>. At a given start the greedy match is
  the only candidate: a shorter number is followed by a digit or a point, which neither
  \<^verbatim>\<open>\s\<close> nor the separator accepts. The leftmost start that matches wins.
\<close>

definition lower :: "char \<Rightarrow> char" where
  "lower c = (let n = of_char c :: nat in if 65 \<le> n \<and> n \<le> 90 then char_of (n + 32) else c)"

definition out_of_5_at :: "string \<Rightarrow> string option" where
  "out_of_5_at s =
     (case number_at s of
        None \<Rightarrow> None
      | Some (cap, r) \<Rightarrow>
          (let r1 = dropWhile is_space r;
               r2 = (if prefix ''/'' r1 then Some (drop 1 r1)
                     else if map lower (take 6 r1) = ''out of'' then Some (drop 6 r1)
                     else None)
           in case r2 of
                None \<Rightarrow> None
              | Some r3 \<Rightarrow>
                  (case dropWhile is_space r3 of
                     [] \<Rightarrow> None
                   | c # _ \<Rightarrow> if c = CHR ''5'' then Some cap else None)))"

fun match_out_of_5 :: "string \<Rightarrow> string option" where
  "match_out_of_5 [] = None"
| "match_out_of_5 (c # s) =
     (case out_of_5_at (c # s) of
        Some cap \<Rightarrow> Some cap
      | None \<Rightarrow> match_out_of_5 s)"

section \<open>The star resolver: \<^verbatim>\<open>extractStarRating\<close>\<close>

text \<open>
  The resolver reads its container through DOM queries. The model takes the answers of
  those queries as the container: the element each \<^verbatim>\<open>querySelector\<close> finds (if any)
  with the properties the code reads from it, the serialized content, and the number of
  elements the filled-star \<^verbatim>\<open>querySelectorAll\<close> returns. The \<^verbatim>\<open>className\<close> of an
  HTML element is a string; that of an SVG element is an object without a
  \<^verbatim>\<open>match\<close> method (here \<^const>\<open>None\<close>), and calling \<^verbatim>\<open>className.match\<close> on it throws
  a TypeError. This is the one exception of the resolver.
\<close>

datatype error = TypeError

record star_el =
  className :: "string option"
  altText :: "string option"
  starInnerText :: "string option"

record container =
  amazonStarEl :: "star_el option"
  iconStarEl :: "star_el option"
  dataRating :: "string option"
  ariaLabel :: "string option"
  innerHTML :: string
  filledStars :: nat

text \<open>\<^verbatim>\<open>s || ''\<close> for a string that may be undefined.\<close>

fun or_empty :: "string option \<Rightarrow> string" where
  "or_empty None = []"
| "or_empty (Some s) = s"

text \<open>\<^verbatim>\<open>Math.round(parseFloat(m[1]))\<close> for the match \<^verbatim>\<open>m\<close> of the number pattern.\<close>

definition rounded_number :: "string \<Rightarrow> jsnum option" where
  "rounded_number s = map_option (\<lambda>m. js_round (parseFloat m)) (match_number s)"

text \<open>Step 1: the Amazon star element: its class, its alt text, its inner text.\<close>

definition amazon_step :: "container \<Rightarrow> error + jsnum option" where
  "amazon_step parent =
     (case amazonStarEl parent of
        None \<Rightarrow> Inr None
      | Some el \<Rightarrow>
          (case className el of
             None \<Rightarrow> Inl TypeError
           | Some cls \<Rightarrow>
               (case match_a_star cls of
                  Some d \<Rightarrow> Inr (Some (parseInt_digit d))
                | None \<Rightarrow>
                    (case rounded_number (or_empty (altText el)) of
                       Some v \<Rightarrow> Inr (Some v)
                     | None \<Rightarrow> Inr (rounded_number (or_empty (starInnerText el)))))))"

text \<open>Step 2: a generic star icon: its class, its alt text.\<close>

definition icon_step :: "container \<Rightarrow> error + jsnum option" where
  "icon_step parent =
     (case iconStarEl parent of
        None \<Rightarrow> Inr None
      | Some el \<Rightarrow>
          (case className el of
             None \<Rightarrow> Inl TypeError
           | Some cls \<Rightarrow>
               (case match_a_star cls of
                  Some d \<Rightarrow> Inr (Some (parseInt_digit d))
                | None \<Rightarrow> Inr (rounded_number (or_empty (altText el))))))"

text \<open>Step 3: the \<^verbatim>\<open>data-rating\<close> attribute, unless it parses to NaN.\<close>

definition data_rating_step :: "container \<Rightarrow> jsnum option" where
  "data_rating_step parent =
     (case dataRating parent of
        None \<Rightarrow> None
      | Some a \<Rightarrow> (let rating = parseFloat a in if rating \<noteq> NaN then Some (js_round rating) else None))"

text \<open>Step 4: the first number of an \<^verbatim>\<open>aria-label\<close> about stars or a rating.\<close>

definition aria_step :: "container \<Rightarrow> jsnum option" where
  "aria_step parent =
     (case ariaLabel parent of
        None \<Rightarrow> None
      | Some l \<Rightarrow> rounded_number l)"

text \<open>Step 5: "X out of 5" or "X/5" in the serialized content.\<close>

definition out_of_5_step :: "container \<Rightarrow> jsnum option" where
  "out_of_5_step parent = map_option (\<lambda>m. js_round (parseFloat m)) (match_out_of_5 (innerHTML parent))"

text \<open>Step 6: the number of filled star icons, when it is between 1 and 5.\<close>

definition filled_step :: "container \<Rightarrow> jsnum option" where
  "filled_step parent =
     (if 0 < filledStars parent \<and> filledStars parent \<le> 5
      then Some (Num (of_nat (filledStars parent))) else None)"

text \<open>The chain: the first step that returns wins; \<^const>\<open>None\<close> is \<^verbatim>\<open>null\<close>. An
  exception of the first two steps leaves the function.\<close>

definition extractStarRating :: "container \<Rightarrow> error + jsnum option" where
  "extractStarRating parent =
     (case amazon_step parent of Inl e \<Rightarrow> Inl e | Inr (Some v) \<Rightarrow> Inr (Some v) | Inr None \<Rightarrow>
      (case icon_step parent of Inl e \<Rightarrow> Inl e | Inr (Some v) \<Rightarrow> Inr (Some v) | Inr None \<Rightarrow>
       (case data_rating_step parent of Some v \<Rightarrow> Inr (Some v) | None \<Rightarrow>
        (case aria_step parent of Some v \<Rightarrow> Inr (Some v) | None \<Rightarrow>
         (case out_of_5_step parent of Some v \<Rightarrow> Inr (Some v) | None \<Rightarrow>
          Inr (filled_step parent))))))"

section \<open>The page adapter: \<^verbatim>\<open>extractReviews\<close>\<close>

text \<open>
  The document is what the adapter reads of it: the elements each selector matches, in
  document order, and the text of the user's selection. An element carries its
  \<^verbatim>\<open>innerText\<close> and the review container found for it (\<^verbatim>\<open>closest\<close> of three
  patterns, else the third parent), if any. The selectors are fixed and valid, so
  \<^verbatim>\<open>querySelectorAll\<close> does not throw; what reaches the \<^verbatim>\<open>catch\<close> of the selector loop
  is the TypeError of the resolver.
\<close>

record element =
  innerText :: "string option"
  reviewContainer :: "container option"

record document =
  querySelectorAll :: "string \<Rightarrow> element list"
  getSelection :: "string option"

record candidate =
  "text" :: string
  stars :: jsnum

definition selectors :: "string list" where
  \<open>selectors =
     [''[data-hook="review-body"]'', ''.review-text-content'', ''.a-size-base.review-text'',
      ''.comment__09f24__D0cxf'', ''.raw__09f24__T4Ezm'',
      ''.biGQs._P.pZUbB.KxBGd'', ''[data-automation="reviewCard"]'',
      ''.MyEned'', ''.wiI7pd'',
      ''[data-service-review-text-typography]'', ''.typography_body-l__KUYFJ'',
      ''[itemprop="reviewBody"]'', ''.pjax'',
      ''[class*="review-text"]'', ''[class*="review-body"]'', ''[class*="review-content"]'',
      ''[class*="comment-text"]'', ''[class*="feedback-text"]'',
      ''.review p'', ''.comment p'']\<close>

text \<open>The star value of a new candidate: 3 unless the resolver finds one.\<close>

definition resolved_stars :: "element \<Rightarrow> error + jsnum" where
  "resolved_stars el =
     (case reviewContainer el of
        None \<Rightarrow> Inr (Num 3)
      | Some c \<Rightarrow>
          (case extractStarRating c of
             Inl e \<Rightarrow> Inl e
           | Inr None \<Rightarrow> Inr (Num 3)
           | Inr (Some v) \<Rightarrow> Inr v))"

text \<open>The body of \<^verbatim>\<open>elements.forEach\<close>: one element against the reviews so far. The
  resolver is called before the push, so an exception leaves the reviews as they
  are.\<close>

definition visit :: "candidate list \<Rightarrow> element \<Rightarrow> error + candidate list" where
  "visit reviews el =
     (case map_option trim (innerText el) of
        None \<Rightarrow> Inr reviews
      | Some t \<Rightarrow>
          if t \<noteq> [] \<and> length t > 20 \<and> length t < 5000 then
            (if \<not> list_ex (\<lambda>r. text r = t) reviews then
               (case resolved_stars el of
                  Inl e \<Rightarrow> Inl e
                | Inr rating \<Rightarrow>
                    Inr (reviews @ [\<lparr>text = t, stars = js_min (Num 5) (js_max (Num 1) (js_round rating))\<rparr>]))
             else Inr reviews)
          else Inr reviews)"

text \<open>
  \<^verbatim>\<open>elements.forEach\<close> inside the \<^verbatim>\<open>try\<close>: an exception thrown for an element ends
  the loop over the elements of this selector, and the \<^verbatim>\<open>catch\<close> ignores it; the
  candidates pushed before stay in \<^verbatim>\<open>reviews\<close>.
\<close>

fun forEach :: "candidate list \<Rightarrow> element list \<Rightarrow> candidate list" where
  "forEach reviews [] = reviews"
| "forEach reviews (el # els) =
     (case visit reviews el of
        Inl e \<Rightarrow> reviews
      | Inr reviews' \<Rightarrow> forEach reviews' els)"

text \<open>The loop over the selectors, each over its elements.\<close>

definition scan :: "document \<Rightarrow> candidate list" where
  "scan doc = foldl (\<lambda>reviews selector. forEach reviews (querySelectorAll doc selector)) [] selectors"

text \<open>The selected text, put in front, and the cut at 50.\<close>

definition with_selection :: "document \<Rightarrow> candidate list \<Rightarrow> candidate list" where
  "with_selection doc reviews =
     (case map_option trim (getSelection doc) of
        None \<Rightarrow> reviews
      | Some s \<Rightarrow>
          if s \<noteq> [] \<and> length s > 20 then \<lparr>text = s, stars = Num 3\<rparr> # reviews
          else reviews)"

definition extractReviews :: "document \<Rightarrow> candidate list" where
  "extractReviews doc = take 50 (with_selection doc (scan doc))"

section \<open>The orchestrator: \<^verbatim>\<open>analyzeReviews\<close>\<close>

text \<open>
  What the scoring service's JSON holds where the code reads it: \<^verbatim>\<open>data.adjusted_rating\<close>,
  \<^verbatim>\<open>data.credibility?.classification\<close>, \<^verbatim>\<open>data.credibility?.score\<close> and
  \<^verbatim>\<open>data.sarcasm?.is_sarcastic\<close>, each \<^const>\<open>None\<close> when undefined or null.
\<close>

record api_data =
  adjusted_rating :: "jsnum option"
  classification :: "string option"
  score :: "jsnum option"
  sarcastic :: "bool option"

text \<open>
  How one \<^verbatim>\<open>fetch\<close> ends: it throws (a transport failure), or it gives a response with
  its \<^verbatim>\<open>ok\<close> flag and what \<^verbatim>\<open>response.json()\<close> resolves to (\<^const>\<open>None\<close> when that
  throws).
\<close>

datatype fetch_result = Threw | Response bool "api_data option"

record analyzed = candidate +
  weighted_rating :: "jsnum option"
  credibility_label :: string
  credibility_score :: jsnum
  is_sarcastic :: bool

text \<open>The body posted to \<^verbatim>\<open>/analyze\<close>: the text and the stars of the review.\<close>

definition body :: "'a candidate_scheme \<Rightarrow> candidate" where
  "body review = \<lparr>text = text review, stars = stars review\<rparr>"

text \<open>The object pushed for a response that is ok: the review's fields and the mapped ones.\<close>

definition mapped :: "candidate \<Rightarrow> api_data \<Rightarrow> analyzed" where
  "mapped review d =
     \<lparr>text = text review, stars = stars review,
      weighted_rating = adjusted_rating d,
      credibility_label = (case classification d of None \<Rightarrow> ''unknown'' | Some l \<Rightarrow> if l = [] then ''unknown'' else l),
      credibility_score = or_else (score d) (Num 0),
      is_sarcastic = (case sarcastic d of None \<Rightarrow> False | Some b \<Rightarrow> b)\<rparr>"

text \<open>A call succeeded when the response is ok and its JSON could be read.\<close>

fun succeeded :: "fetch_result \<Rightarrow> bool" where
  "succeeded (Response True (Some d)) = True"
| "succeeded _ = False"

text \<open>One turn of the loop once its fetch has ended: push on success, nothing otherwise
  (the \<^verbatim>\<open>catch\<close> logs and the loop goes on).\<close>

fun analyzeOne :: "fetch_result \<Rightarrow> candidate \<Rightarrow> analyzed list \<Rightarrow> analyzed list" where
  "analyzeOne (Response True (Some d)) review results = results @ [mapped review d]"
| "analyzeOne _ review results = results"

text \<open>
  The loop, with the service as a function of the number of calls made before and of the
  body posted. The state is the results so far and the bodies posted so far.
\<close>

fun analyzeLoop ::
  "(nat \<Rightarrow> candidate \<Rightarrow> fetch_result) \<Rightarrow> candidate list \<Rightarrow> analyzed list \<times> candidate list
     \<Rightarrow> analyzed list \<times> candidate list" where
  "analyzeLoop fetch [] st = st"
| "analyzeLoop fetch (review # rest) (results, posted) =
     analyzeLoop fetch rest
       (analyzeOne (fetch (length posted) (body review)) review results, posted @ [body review])"

definition analyzeReviews ::
  "(nat \<Rightarrow> candidate \<Rightarrow> fetch_result) \<Rightarrow> candidate list \<Rightarrow> analyzed list \<times> candidate list" where
  "analyzeReviews fetch reviews = analyzeLoop fetch (take 20 reviews) ([], [])"

section \<open>The aggregator: \<^verbatim>\<open>calculateTruthGap\<close> and the counts of \<^verbatim>\<open>renderResults\<close>\<close>

text \<open>
  The functions come first with the arithmetic carried out exactly: this reading shows
  which values are combined, where the zero state comes from and when the displayed
  rating is taken. The same functions in the arithmetic of the engine follow.
\<close>

record truth_gap =
  gap :: jsnum
  avgDisplayed :: jsnum
  avgTrue :: jsnum

text \<open>The two \<^verbatim>\<open>reduce\<close> sums, from 0.\<close>

definition sum_stars :: "analyzed list \<Rightarrow> jsnum" where
  "sum_stars results = foldl (\<lambda>sum r. js_add sum (stars r)) (Num 0) results"

definition sum_true :: "analyzed list \<Rightarrow> jsnum" where
  "sum_true results = foldl (\<lambda>sum r. js_add sum (or_else (weighted_rating r) (stars r))) (Num 0) results"

text \<open>The popup's \<^verbatim>\<open>calculateTruthGap(results, displayedRating = null)\<close>.\<close>

definition calculateTruthGap :: "analyzed list \<Rightarrow> jsnum option \<Rightarrow> truth_gap" where
  "calculateTruthGap results displayed =
     (if length results = 0 then \<lparr>gap = Num 0, avgDisplayed = Num 0, avgTrue = Num 0\<rparr>
      else
        let d = or_else displayed (js_div (sum_stars results) (Num (of_nat (length results))));
            t = js_div (sum_true results) (Num (of_nat (length results)))
        in \<lparr>gap = js_sub d t, avgDisplayed = d, avgTrue = t\<rparr>)"

text \<open>The bookmarklet's \<^verbatim>\<open>calculateTruthGap(results)\<close>, which takes no displayed rating.\<close>

definition calculateTruthGap_bookmarklet :: "analyzed list \<Rightarrow> truth_gap" where
  "calculateTruthGap_bookmarklet results =
     (if length results = 0 then \<lparr>gap = Num 0, avgDisplayed = Num 0, avgTrue = Num 0\<rparr>
      else
        let d = js_div (sum_stars results) (Num (of_nat (length results)));
            t = js_div (sum_true results) (Num (of_nat (length results)))
        in \<lparr>gap = js_sub d t, avgDisplayed = d, avgTrue = t\<rparr>)"

text \<open>The page context, as far as the aggregation reads it.\<close>

record page_info =
  site :: string
  displayedRating :: "jsnum option"

record cred_counts =
  human :: nat
  bot :: nat
  lowEffort :: nat
  total :: nat

definition credCounts :: "analyzed list \<Rightarrow> cred_counts" where
  "credCounts results =
     \<lparr>human = length (filter (\<lambda>r. credibility_label r = ''human'') results),
      bot = length (filter (\<lambda>r. credibility_label r = ''bot'') results),
      lowEffort = length (filter (\<lambda>r. credibility_label r = ''low_effort'') results),
      total = length results\<rparr>"

text \<open>\<^verbatim>\<open>pageInfo?.displayedRating || null\<close>.\<close>

definition displayed_or_null :: "page_info option \<Rightarrow> jsnum option" where
  "displayed_or_null pageInfo =
     (case pageInfo of
        None \<Rightarrow> None
      | Some p \<Rightarrow> (case displayedRating p of None \<Rightarrow> None | Some x \<Rightarrow> if truthy x then Some x else None))"

text \<open>What the popup's \<^verbatim>\<open>renderResults\<close> computes from the results and the page context.\<close>

definition renderResults :: "page_info option \<Rightarrow> analyzed list \<Rightarrow> truth_gap \<times> cred_counts" where
  "renderResults pageInfo results =
     (calculateTruthGap results (displayed_or_null pageInfo), credCounts results)"

subsection \<open>The aggregator in the arithmetic of doubles\<close>

text \<open>The same two functions with each sum, quotient and difference rounded as the
  engine rounds it. The count \<^verbatim>\<open>results.length\<close> is an integer and a double.\<close>

definition sum_stars64 :: "analyzed list \<Rightarrow> jsnum" where
  "sum_stars64 results = foldl (\<lambda>sum r. add64 sum (stars r)) (Num 0) results"

definition sum_true64 :: "analyzed list \<Rightarrow> jsnum" where
  "sum_true64 results = foldl (\<lambda>sum r. add64 sum (or_else (weighted_rating r) (stars r))) (Num 0) results"

definition calculateTruthGap64 :: "analyzed list \<Rightarrow> jsnum option \<Rightarrow> truth_gap" where
  "calculateTruthGap64 results displayed =
     (if length results = 0 then \<lparr>gap = Num 0, avgDisplayed = Num 0, avgTrue = Num 0\<rparr>
      else
        let d = or_else displayed (div64 (sum_stars64 results) (Num (of_nat (length results))));
            t = div64 (sum_true64 results) (Num (of_nat (length results)))
        in \<lparr>gap = sub64 d t, avgDisplayed = d, avgTrue = t\<rparr>)"

definition calculateTruthGap64_bookmarklet :: "analyzed list \<Rightarrow> truth_gap" where
  "calculateTruthGap64_bookmarklet results =
     (if length results = 0 then \<lparr>gap = Num 0, avgDisplayed = Num 0, avgTrue = Num 0\<rparr>
      else
        let d = div64 (sum_stars64 results) (Num (of_nat (length results)));
            t = div64 (sum_true64 results) (Num (of_nat (length results)))
        in \<lparr>gap = sub64 d t, avgDisplayed = d, avgTrue = t\<rparr>)"

text \<open>What the popup's \<^verbatim>\<open>renderResults\<close> computes, in that arithmetic.\<close>

definition renderResults64 :: "page_info option \<Rightarrow> analyzed list \<Rightarrow> truth_gap \<times> cred_counts" where
  "renderResults64 pageInfo results =
     (calculateTruthGap64 results (displayed_or_null pageInfo), credCounts results)"

section \<open>The load-more session of the bookmarklet: \<^verbatim>\<open>handleLoadMore\<close>\<close>

text \<open>
  \<^verbatim>\<open>handleLoadMore\<close> is an asynchronous function on one event loop: it runs until an
  \<^verbatim>\<open>await\<close>, and goes on when what it waits for is there. An invocation that is
  suspended is a task: waiting for the scroll, waiting for the page to settle, or inside
  \<^verbatim>\<open>analyzeReviews\<close> waiting for a fetch, with the additional reviews, the reviews the
  loop has still to do (the first one being posted) and the results so far.
  The session holds the three variables of the script, the tasks, the bodies posted to
  the service so far, and what the button shows. A click is taken at any time: that the
  handler also disables the button is left out, so the guard alone has to hold.
\<close>

datatype task =
    AwaitScroll
  | AwaitSettle
  | AwaitFetch "candidate list" "candidate list" "analyzed list"

datatype button_label = Load_more | Loading | No_more_found | Failed_to_load

record session =
  currentResults :: "analyzed list"
  allExtractedReviews :: "candidate list"
  isLoadingMore :: bool
  tasks :: "task list"
  posted :: "candidate list"
  button :: button_label

text \<open>What wakes a task: the scroll is done, the settling time is over (the page being
  then as given), a fetch has ended, or an exception was thrown inside the \<^verbatim>\<open>try\<close>.\<close>

datatype signal = Scrolled | Settled document | Fetched fetch_result | Raised

datatype event = Click | Resume nat signal

text \<open>The reviews that are new: those whose text no current result has.\<close>

definition additionalReviews :: "analyzed list \<Rightarrow> candidate list \<Rightarrow> candidate list" where
  "additionalReviews results newReviews =
     filter (\<lambda>r. text r \<notin> set (map text results)) newReviews"

text \<open>A click: the guard, the flag, and the scroll that the handler then waits for.\<close>

definition handleLoadMore :: "session \<Rightarrow> session" where
  "handleLoadMore s =
     (if isLoadingMore s then s
      else s\<lparr>isLoadingMore := True, button := Loading, tasks := tasks s @ [AwaitScroll]\<rparr>)"

text \<open>The \<^verbatim>\<open>finally\<close>: the flag is reset and the invocation is over.\<close>

definition finish :: "nat \<Rightarrow> session \<Rightarrow> session" where
  "finish i s = s\<lparr>isLoadingMore := False, tasks := take i (tasks s) @ drop (Suc i) (tasks s)\<rparr>"

text \<open>The merge after \<^verbatim>\<open>analyzeReviews\<close> has returned, and the render.\<close>

definition merge :: "nat \<Rightarrow> candidate list \<Rightarrow> analyzed list \<Rightarrow> session \<Rightarrow> session" where
  "merge i additional newResults s =
     finish i (s\<lparr>currentResults := currentResults s @ newResults,
                 allExtractedReviews := allExtractedReviews s @ additional,
                 button := Load_more\<rparr>)"

text \<open>The task \<^verbatim>\<open>i\<close> goes on. A signal that the task does not wait for changes nothing.\<close>

definition resume :: "nat \<Rightarrow> signal \<Rightarrow> session \<Rightarrow> session" where
  "resume i sg s =
     (if i < length (tasks s) then
        (case (tasks s ! i, sg) of
           (_, Raised) \<Rightarrow> finish i (s\<lparr>button := Failed_to_load\<rparr>)
         | (AwaitScroll, Scrolled) \<Rightarrow> s\<lparr>tasks := (tasks s)[i := AwaitSettle]\<rparr>
         | (AwaitSettle, Settled doc) \<Rightarrow>
             (let newReviews = extractReviews doc;
                  additional = additionalReviews (currentResults s) newReviews
              in if length additional > 0 then
                   (case take 20 additional of
                      [] \<Rightarrow> merge i additional [] s
                    | review # rest \<Rightarrow>
                        s\<lparr>tasks := (tasks s)[i := AwaitFetch additional (review # rest) []],
                          posted := posted s @ [body review]\<rparr>)
                 else finish i (s\<lparr>button := No_more_found\<rparr>))
         | (AwaitFetch additional (review # rest) results, Fetched res) \<Rightarrow>
             (let results' = analyzeOne res review results
              in case rest of
                   [] \<Rightarrow> merge i additional results' s
                 | next # _ \<Rightarrow>
                     s\<lparr>tasks := (tasks s)[i := AwaitFetch additional rest results'],
                       posted := posted s @ [body next]\<rparr>)
         | _ \<Rightarrow> s)
      else s)"

fun step :: "session \<Rightarrow> event \<Rightarrow> session" where
  "step s Click = handleLoadMore s"
| "step s (Resume i sg) = resume i sg s"

definition run :: "session \<Rightarrow> event list \<Rightarrow> session" where
  "run s events = foldl step s events"

text \<open>The session once the first analysis has been rendered, and what can be reached
  from it by clicks and resumptions in any order.\<close>

definition rendered :: "analyzed list \<Rightarrow> candidate list \<Rightarrow> candidate list \<Rightarrow> session" where
  "rendered results reviews bodies =
     \<lparr>currentResults = results, allExtractedReviews = reviews, isLoadingMore = False,
      tasks = [], posted = bodies, button = Load_more\<rparr>"

inductive reachable :: "session \<Rightarrow> bool" where
  at_start: "reachable (rendered results reviews bodies)"
| after_step: "reachable s \<Longrightarrow> reachable (step s e)"

text \<open>One whole pass of load more with no other event in between: the click, the two
  waits, and one fetch result after the other.\<close>

definition pass :: "document \<Rightarrow> fetch_result list \<Rightarrow> event list" where
  "pass doc rs = Click # Resume 0 Scrolled # Resume 0 (Settled doc) # map (\<lambda>r. Resume 0 (Fetched r)) rs"

section \<open>The session of the popup: \<^verbatim>\<open>handleAnalyze\<close> and \<^verbatim>\<open>handleLoadMore\<close>\<close>

text \<open>
  The popup has two asynchronous handlers behind one flag, \<^verbatim>\<open>isLoading\<close>. A task is an
  invocation of one of them suspended at an \<^verbatim>\<open>await\<close>: \<^verbatim>\<open>handleAnalyze\<close> waits for the
  tab, for the injection of the content script, for the 100 ms pause, for the content
  script's answer, then for each fetch of \<^verbatim>\<open>analyzeReviews\<close>; \<^verbatim>\<open>handleLoadMore\<close> waits
  for the tab, for the content script's answer, then for each fetch. The content script
  answers both messages with \<^verbatim>\<open>extractReviews()\<close> and the page context of the page as
  it is then; no answer is \<^const>\<open>None\<close>.
\<close>

datatype popup_task =
    Analyze_tab
  | Analyze_inject
  | Analyze_pause
  | Analyze_answer
  | Analyze_fetch "candidate list" "analyzed list"
  | More_tab
  | More_answer
  | More_fetch page_info "candidate list" "analyzed list"

datatype popup_view = Initial_view | Loading_view | Results_view | Error_view | No_reviews_view

record popup =
  popup_currentResults :: "analyzed list"
  popup_pageInfo :: "page_info option"
  isLoading :: bool
  popup_tasks :: "popup_task list"
  popup_posted :: "candidate list"
  view :: popup_view

datatype popup_signal =
    Resolved
  | Answered "(document \<times> page_info) option"
  | Fetch_ended fetch_result
  | Rejected

datatype popup_event = Click_analyze | Click_load_more | Popup_resume nat popup_signal

text \<open>The two handlers up to their first \<^verbatim>\<open>await\<close>.\<close>

definition handleAnalyze :: "popup \<Rightarrow> popup" where
  "handleAnalyze p =
     (if isLoading p then p
      else p\<lparr>isLoading := True, view := Loading_view, popup_tasks := popup_tasks p @ [Analyze_tab]\<rparr>)"

definition popup_handleLoadMore :: "popup \<Rightarrow> popup" where
  "popup_handleLoadMore p =
     (if isLoading p then p
      else p\<lparr>isLoading := True, popup_tasks := popup_tasks p @ [More_tab]\<rparr>)"

text \<open>The \<^verbatim>\<open>finally\<close> of either handler.\<close>

definition popup_finish :: "nat \<Rightarrow> popup \<Rightarrow> popup" where
  "popup_finish i p =
     p\<lparr>isLoading := False, popup_tasks := take i (popup_tasks p) @ drop (Suc i) (popup_tasks p)\<rparr>"

text \<open>The task \<^verbatim>\<open>i\<close> goes on. A rejection while the content script is injected is caught
  on the spot; any other one reaches the handler's \<^verbatim>\<open>catch\<close>.\<close>

definition popup_resume :: "nat \<Rightarrow> popup_signal \<Rightarrow> popup \<Rightarrow> popup" where
  "popup_resume i sg p =
     (if i < length (popup_tasks p) then
        (case (popup_tasks p ! i, sg) of
           (Analyze_inject, Rejected) \<Rightarrow> p\<lparr>popup_tasks := (popup_tasks p)[i := Analyze_pause]\<rparr>
         | (Analyze_tab, Rejected) \<Rightarrow> popup_finish i (p\<lparr>view := Error_view\<rparr>)
         | (Analyze_pause, Rejected) \<Rightarrow> popup_finish i (p\<lparr>view := Error_view\<rparr>)
         | (Analyze_answer, Rejected) \<Rightarrow> popup_finish i (p\<lparr>view := Error_view\<rparr>)
         | (Analyze_fetch _ _, Rejected) \<Rightarrow> popup_finish i (p\<lparr>view := Error_view\<rparr>)
         | (_, Rejected) \<Rightarrow> popup_finish i p
         | (Analyze_tab, Resolved) \<Rightarrow> p\<lparr>popup_tasks := (popup_tasks p)[i := Analyze_inject]\<rparr>
         | (Analyze_inject, Resolved) \<Rightarrow> p\<lparr>popup_tasks := (popup_tasks p)[i := Analyze_pause]\<rparr>
         | (Analyze_pause, Resolved) \<Rightarrow> p\<lparr>popup_tasks := (popup_tasks p)[i := Analyze_answer]\<rparr>
         | (Analyze_answer, Answered None) \<Rightarrow> popup_finish i (p\<lparr>view := Error_view\<rparr>)
         | (Analyze_answer, Answered (Some (doc, info))) \<Rightarrow>
             (let reviews = extractReviews doc
              in if length reviews = 0
                 then popup_finish i (p\<lparr>popup_pageInfo := Some info, view := No_reviews_view, isLoading := False\<rparr>)
                 else
                   (case take 20 reviews of
                      [] \<Rightarrow> popup_finish i (p\<lparr>popup_pageInfo := Some info, popup_currentResults := [], view := Error_view\<rparr>)
                    | review # rest \<Rightarrow>
                        p\<lparr>popup_pageInfo := Some info,
                          popup_tasks := (popup_tasks p)[i := Analyze_fetch (review # rest) []],
                          popup_posted := popup_posted p @ [body review]\<rparr>))
         | (Analyze_fetch (review # rest) results, Fetch_ended res) \<Rightarrow>
             (let results' = analyzeOne res review results
              in case rest of
                   [] \<Rightarrow>
                     (if length results' = 0
                      then popup_finish i (p\<lparr>popup_currentResults := results', view := Error_view\<rparr>)
                      else popup_finish i (p\<lparr>popup_currentResults := results', view := Results_view\<rparr>))
                 | next # _ \<Rightarrow>
                     p\<lparr>popup_tasks := (popup_tasks p)[i := Analyze_fetch rest results'],
                       popup_posted := popup_posted p @ [body next]\<rparr>)
         | (More_tab, Resolved) \<Rightarrow> p\<lparr>popup_tasks := (popup_tasks p)[i := More_answer]\<rparr>
         | (More_answer, Answered None) \<Rightarrow> popup_finish i p
         | (More_answer, Answered (Some (doc, info))) \<Rightarrow>
             (if length (extractReviews doc) > 0 then
                (let newReviews = additionalReviews (popup_currentResults p) (extractReviews doc)
                 in if length newReviews > 0 then
                      (case take 20 newReviews of
                         [] \<Rightarrow> popup_finish i (p\<lparr>popup_pageInfo := Some info, view := Results_view\<rparr>)
                       | review # rest \<Rightarrow>
                           p\<lparr>popup_tasks := (popup_tasks p)[i := More_fetch info (review # rest) []],
                             popup_posted := popup_posted p @ [body review]\<rparr>)
                    else popup_finish i p)
              else popup_finish i p)
         | (More_fetch info (review # rest) results, Fetch_ended res) \<Rightarrow>
             (let results' = analyzeOne res review results
              in case rest of
                   [] \<Rightarrow>
                     popup_finish i
                       (p\<lparr>popup_currentResults := popup_currentResults p @ results',
                          popup_pageInfo := Some info, view := Results_view\<rparr>)
                 | next # _ \<Rightarrow>
                     p\<lparr>popup_tasks := (popup_tasks p)[i := More_fetch info rest results'],
                       popup_posted := popup_posted p @ [body next]\<rparr>)
         | _ \<Rightarrow> p)
      else p)"

fun popup_step :: "popup \<Rightarrow> popup_event \<Rightarrow> popup" where
  "popup_step p Click_analyze = handleAnalyze p"
| "popup_step p Click_load_more = popup_handleLoadMore p"
| "popup_step p (Popup_resume i sg) = popup_resume i sg p"

text \<open>The popup as the script leaves it when loaded, and what can be reached from it.\<close>

definition popup_opened :: popup where
  "popup_opened =
     \<lparr>popup_currentResults = [], popup_pageInfo = None, isLoading = False, popup_tasks = [],
      popup_posted = [], view = Initial_view\<rparr>"

inductive popup_reachable :: "popup \<Rightarrow> bool" where
  popup_at_start: "popup_reachable popup_opened"
| popup_after_step: "popup_reachable p \<Longrightarrow> popup_reachable (popup_step p e)"

text \<open>One whole pass of the popup's load more with no other event in between.\<close>

definition popup_pass :: "document \<Rightarrow> page_info \<Rightarrow> fetch_result list \<Rightarrow> popup_event list" where
  "popup_pass doc info rs =
     Click_load_more # Popup_resume 0 Resolved # Popup_resume 0 (Answered (Some (doc, info)))
       # map (\<lambda>r. Popup_resume 0 (Fetch_ended r)) rs"

section \<open>Functions and predicates used in the statements\<close>

text \<open>A candidate whose star value is an integer from 1 to 5.\<close>

definition star_ok :: "candidate \<Rightarrow> bool" where
  "star_ok c = (\<exists>k. 1 \<le> k \<and> k \<le> 5 \<and> stars c = Num (of_int k))"

text \<open>The trimmed text of an element when its length is above 20 and below 5000.\<close>

definition accepted_text :: "element \<Rightarrow> string set" where
  "accepted_text el = {t. \<exists>s. innerText el = Some s \<and> t = trim s \<and> 20 < length t \<and> length t < 5000}"

text \<open>The simple mean of a list of numbers as the engine computes it: summed from 0,
  left to right, and divided by the count.\<close>

definition mean64 :: "rat list \<Rightarrow> jsnum" where
  "mean64 ws = div64 (foldl (\<lambda>sum w. add64 sum (Num w)) (Num 0) ws) (Num (of_nat (length ws)))"

text \<open>At most one invocation is in flight, and the flag is set exactly when one is.\<close>

definition guarded :: "session \<Rightarrow> bool" where
  "guarded s = (length (tasks s) \<le> 1 \<and> (isLoadingMore s \<longleftrightarrow> tasks s \<noteq> []))"

text \<open>No invocation is in flight and the flag is not set.\<close>

definition idle :: "session \<Rightarrow> bool" where
  "idle s = (tasks s = [] \<and> \<not> isLoadingMore s)"

text \<open>The same two for the popup.\<close>

definition popup_guarded :: "popup \<Rightarrow> bool" where
  "popup_guarded p = (length (popup_tasks p) \<le> 1 \<and> (isLoading p \<longleftrightarrow> popup_tasks p \<noteq> []))"

definition popup_idle :: "popup \<Rightarrow> bool" where
  "popup_idle p = (popup_tasks p = [] \<and> \<not> isLoading p)"

text \<open>The results of the analysis loop when its calls end as listed, in order.\<close>

definition fed :: "analyzed list \<Rightarrow> candidate list \<Rightarrow> fetch_result list \<Rightarrow> analyzed list" where
  "fed results revs rs = foldl (\<lambda>res (r, out). analyzeOne out r res) results (zip revs rs)"

section \<open>Example inputs\<close>

text \<open>A container whose only rating mark is \<^verbatim>\<open>data-rating="10"\<close>.\<close>

definition rated_10 :: container where
  "rated_10 = \<lparr>amazonStarEl = None, iconStarEl = None, dataRating = Some ''10'',
                ariaLabel = None, innerHTML = [], filledStars = 0\<rparr>"

text \<open>A page where one element matches \<^verbatim>\<open>.review-text-content\<close>, with the given inner
  text and review container, and the given selection.\<close>

definition one_review_page :: "string \<Rightarrow> container option \<Rightarrow> string option \<Rightarrow> document" where
  "one_review_page t c sel =
     \<lparr>querySelectorAll = (\<lambda>selector. if selector = ''.review-text-content''
           then [\<lparr>innerText = Some t, reviewContainer = c\<rparr>] else []),
      getSelection = sel\<rparr>"

text \<open>Ten candidates, and a service whose calls number 1, 4 and 7 fail: one throws, one
  answers with a status that is not ok, one answers ok with a body that is not JSON.\<close>

definition ten_reviews :: "candidate list" where
  "ten_reviews = map (\<lambda>c. \<lparr>text = [CHR ''r'', c], stars = Num 4\<rparr>) ''0123456789''"

definition plain_data :: api_data where
  "plain_data = \<lparr>adjusted_rating = Some (Num 4), classification = Some ''human'',
                  score = Some (Num (9 / 10)), sarcastic = Some False\<rparr>"

definition flaky :: "nat \<Rightarrow> candidate \<Rightarrow> fetch_result" where
  "flaky i b =
     (if i = 1 then Threw
      else if i = 4 then Response False (Some plain_data)
      else if i = 7 then Response True None
      else Response True (Some plain_data))"

text \<open>An analyzed review with the given stars and adjusted rating.\<close>

definition scored :: "rat \<Rightarrow> jsnum option \<Rightarrow> analyzed" where
  "scored s w =
     \<lparr>text = ''A review of more than twenty characters.'', stars = Num s,
      weighted_rating = w, credibility_label = ''human'',
      credibility_score = Num (9 / 10), is_sarcastic = False\<rparr>"

text \<open>Stars 5, 5, 3, 1 with adjusted ratings 0.22, 4.84, 3.64, 1.32.\<close>

definition four_scored :: "analyzed list" where
  "four_scored =
     [scored 5 (Some (Num (22 / 100))), scored 5 (Some (Num (484 / 100))),
      scored 3 (Some (Num (364 / 100))), scored 1 (Some (Num (132 / 100)))]"


text \<open>A container whose star icon is an SVG element, and a page where
  \<^verbatim>\<open>.review-text-content\<close> matches two paragraphs, the first inside that container, the
  second inside \<^const>\<open>rated_10\<close>.\<close>

definition svg_star :: container where
  "svg_star =
     \<lparr>amazonStarEl = None,
      iconStarEl = Some \<lparr>className = None, altText = None, starInnerText = None\<rparr>,
      dataRating = None, ariaLabel = None, innerHTML = [], filledStars = 0\<rparr>"

definition svg_first_page :: document where
  "svg_first_page =
     \<lparr>querySelectorAll = (\<lambda>selector. if selector = ''.review-text-content''
           then [\<lparr>innerText = Some ''The first review, long enough.'', reviewContainer = Some svg_star\<rparr>,
                 \<lparr>innerText = Some ''The second review, long enough.'', reviewContainer = Some rated_10\<rparr>]
           else []),
      getSelection = None\<rparr>"

text \<open>A page with two reviews, none of them with a rating mark, and the session after the
  first analysis when the page had only the first review.\<close>

definition two_review_page :: document where
  "two_review_page =
     \<lparr>querySelectorAll = (\<lambda>selector. if selector = ''.review-text-content''
           then [\<lparr>innerText = Some ''The first review, long enough.'', reviewContainer = None\<rparr>,
                 \<lparr>innerText = Some ''The second review, long enough.'', reviewContainer = None\<rparr>]
           else []),
      getSelection = None\<rparr>"

definition first_review :: candidate where
  "first_review = \<lparr>text = ''The first review, long enough.'', stars = Num 3\<rparr>"

definition second_review :: candidate where
  "second_review = \<lparr>text = ''The second review, long enough.'', stars = Num 3\<rparr>"

definition first_rendered :: session where
  "first_rendered = rendered [mapped first_review plain_data] [first_review] [first_review]"

text \<open>The popup after the same first analysis.\<close>

definition popup_first_rendered :: popup where
  "popup_first_rendered =
     \<lparr>popup_currentResults = [mapped first_review plain_data],
      popup_pageInfo = Some \<lparr>site = ''unknown'', displayedRating = None\<rparr>,
      isLoading = False, popup_tasks = [], popup_posted = [first_review], view = Results_view\<rparr>"

section \<open>Properties of the star resolver\<close>

lemma digit_not_space: "is_digit d \<Longrightarrow> \<not> is_space d"
  by (auto simp: is_digit_def is_space_def)

lemma nearest64_not_NaN: "nearest64 q \<noteq> NaN"
  by (simp add: nearest64_def Let_def)

lemma js_neg_NaN: "js_neg x = NaN \<longleftrightarrow> x = NaN"
  by (cases x) auto

lemma round64_not_NaN: "x \<noteq> NaN \<Longrightarrow> round64 x \<noteq> NaN"
  by (cases x) (auto simp: nearest64_not_NaN js_neg_NaN)

lemma parse_unsigned_digit: "is_digit d \<Longrightarrow> parse_unsigned (d # r) \<noteq> NaN"
proof -
  assume d: "is_digit d"
  then have p: "\<not> prefix ''Infinity'' (d # r)" by (auto simp: is_digit_def)
  from d have t: "takeWhile is_digit (d # r) \<noteq> []" by simp
  show ?thesis
    unfolding parse_unsigned_def Let_def using p t
    by (simp only: if_False simp_thms round64_not_NaN jsnum.distinct not_False_eq_True)
qed

lemma parseFloat_digit: "is_digit d \<Longrightarrow> parseFloat (d # r) \<noteq> NaN"
  using parse_unsigned_digit[of d r]
  by (auto simp: parseFloat_def digit_not_space is_digit_def)

lemma number_at_digit:
  assumes "number_at s = Some (cap, r)"
  shows "\<exists>d t. cap = d # t \<and> is_digit d"
proof -
  from assms have ne: "takeWhile is_digit s \<noteq> []"
    by (auto simp: number_at_def Let_def split: if_splits)
  then obtain d t where dt: "takeWhile is_digit s = d # t"
    by (cases "takeWhile is_digit s") auto
  then have "d \<in> set (takeWhile is_digit s)" by simp
  then have dig: "is_digit d" by (rule set_takeWhileD[THEN conjunct2])
  from assms ne have "\<exists>u. cap = takeWhile is_digit s @ u"
    by (auto simp: number_at_def Let_def split: if_splits list.splits)
  with dt dig show ?thesis by auto
qed

lemma floor_int_half: "\<lfloor>(of_int n :: rat) + 1 / 2\<rfloor> = n"
  by (rule floor_unique) auto

lemma js_round_idem: "js_round (js_round x) = js_round x"
  by (cases x) (auto simp: floor_int_half)

lemma js_round_not_NaN: "x \<noteq> NaN \<Longrightarrow> js_round x \<noteq> NaN"
  by (cases x) auto

lemma rounded_parse:
  "number_at s = Some (cap, r) \<Longrightarrow>
   js_round (parseFloat cap) \<noteq> NaN \<and> js_round (js_round (parseFloat cap)) = js_round (parseFloat cap)"
proof -
  assume "number_at s = Some (cap, r)"
  then obtain d t where "cap = d # t" "is_digit d" using number_at_digit by blast
  then have "parseFloat cap \<noteq> NaN" using parseFloat_digit by blast
  then show ?thesis by (simp add: js_round_not_NaN js_round_idem)
qed

lemma rounded_number_round: "rounded_number s = Some v \<Longrightarrow> v \<noteq> NaN \<and> js_round v = v"
  using rounded_parse by (fastforce simp: rounded_number_def match_number_def)

lemma out_of_5_at_cap: "out_of_5_at s = Some cap \<Longrightarrow> \<exists>r. number_at s = Some (cap, r)"
  by (auto simp: out_of_5_at_def Let_def split: option.splits if_splits list.splits)

lemma match_out_of_5_cap: "match_out_of_5 s = Some cap \<Longrightarrow> \<exists>t r. number_at t = Some (cap, r)"
proof (induction s)
  case Nil then show ?case by simp
next
  case (Cons c s)
  show ?case
  proof (cases "out_of_5_at (c # s)")
    case None with Cons show ?thesis by simp
  next
    case (Some a)
    with Cons.prems have "out_of_5_at (c # s) = Some cap" by simp
    then show ?thesis using out_of_5_at_cap by blast
  qed
qed

lemma out_of_5_step_round: "out_of_5_step p = Some v \<Longrightarrow> v \<noteq> NaN \<and> js_round v = v"
  using match_out_of_5_cap rounded_parse by (fastforce simp: out_of_5_step_def)

lemma parseInt_digit_round: "parseInt_digit d \<noteq> NaN \<and> js_round (parseInt_digit d) = parseInt_digit d"
proof -
  have "parseInt_digit d = Num (of_int (int (digit_val d)))"
    by (simp add: parseInt_digit_def)
  then show ?thesis by (simp only: js_round.simps floor_int_half jsnum.distinct simp_thms)
qed

lemma amazon_step_round: "amazon_step p = Inr (Some v) \<Longrightarrow> v \<noteq> NaN \<and> js_round v = v"
  using rounded_number_round parseInt_digit_round
  by (fastforce simp: amazon_step_def split: option.splits)

lemma icon_step_round: "icon_step p = Inr (Some v) \<Longrightarrow> v \<noteq> NaN \<and> js_round v = v"
  using rounded_number_round parseInt_digit_round
  by (fastforce simp: icon_step_def split: option.splits)

lemma aria_step_round: "aria_step p = Some v \<Longrightarrow> v \<noteq> NaN \<and> js_round v = v"
  using rounded_number_round
  by (fastforce simp: aria_step_def split: option.splits)

lemma filled_step_round: "filled_step p = Some v \<Longrightarrow> v \<noteq> NaN \<and> js_round v = v"
proof -
  assume "filled_step p = Some v"
  then have "v = Num (of_int (int (filledStars p)))"
    by (auto simp: filled_step_def split: if_splits)
  then show ?thesis by (simp only: js_round.simps floor_int_half jsnum.distinct simp_thms)
qed

lemma data_rating_step_round: "data_rating_step p = Some v \<Longrightarrow> v \<noteq> NaN \<and> js_round v = v"
  by (auto simp: data_rating_step_def Let_def js_round_not_NaN js_round_idem split: option.splits if_splits)

lemma extractStarRating_round: "extractStarRating p = Inr (Some v) \<Longrightarrow> v \<noteq> NaN \<and> js_round v = v"
  unfolding extractStarRating_def
  using amazon_step_round[of p v] icon_step_round[of p v] aria_step_round[of p v]
    out_of_5_step_round[of p v] filled_step_round[of p v] data_rating_step_round[of p v]
  by (auto split: option.splits sum.splits)

lemma clamp_range:
  "v \<noteq> NaN \<Longrightarrow> \<exists>k. 1 \<le> k \<and> k \<le> 5 \<and> js_min (Num 5) (js_max (Num 1) (js_round v)) = Num (of_int k)"
proof (cases v)
  case (Num q)
  let ?n = "\<lfloor>q + 1 / 2\<rfloor>"
  have "js_min (Num 5) (js_max (Num 1) (js_round v)) = Num (of_int (min 5 (max 1 ?n)))"
    using Num by (simp add: min_def max_def)
  moreover have "1 \<le> min 5 (max 1 ?n) \<and> min 5 (max 1 ?n) \<le> 5" by auto
  ultimately show ?thesis by blast
next
  case PosInf
  then show ?thesis by (auto intro: exI[of _ 5])
next
  case NegInf
  then show ?thesis by (auto intro: exI[of _ 1])
next
  case NaN
  assume "v \<noteq> NaN" with NaN show ?thesis by simp
qed

text \<open>
  Claim C5, as the code has it. For every review container on which the resolver returns,
  it returns null or a number that is rounded: an integer, or an infinity when the
  \<^verbatim>\<open>data-rating\<close> attribute parses to one. The resolver does not clamp: only its last
  step keeps to 1..5. The clamp into 1..5 is what \<^verbatim>\<open>extractReviews\<close> applies to the
  value.
\<close>

theorem extractStarRating_rounded:
  "extractStarRating parent = Inr (Some v) \<Longrightarrow>
     ((\<exists>n. v = Num (of_int n)) \<or> v = PosInf \<or> v = NegInf)
     \<and> js_round v = v
     \<and> (\<exists>k. 1 \<le> k \<and> k \<le> 5 \<and> js_min (Num 5) (js_max (Num 1) (js_round v)) = Num (of_int k))"
proof -
  assume a: "extractStarRating parent = Inr (Some v)"
  then have r: "v \<noteq> NaN \<and> js_round v = v" by (rule extractStarRating_round)
  then have "(\<exists>n. v = Num (of_int n)) \<or> v = PosInf \<or> v = NegInf"
    by (cases v) (auto, metis)
  with r clamp_range[of v] show ?thesis by blast
qed

theorem extractStarRating_rounded_witness:
  "extractStarRating rated_10 = Inr (Some (Num 10))
   \<and> js_round (Num 10) = Num 10
   \<and> js_min (Num 5) (js_max (Num 1) (js_round (Num 10))) = Num 5"
proof -
  have h: "extractStarRating rated_10 = Inr (Some (Num 10))" by code_simp
  have c: "js_min (Num 5) (js_max (Num 1) (js_round (Num 10))) = Num 5" by code_simp
  from extractStarRating_rounded[OF h] h c show ?thesis by blast
qed

text \<open>The resolver returns 10 for a container marked \<^verbatim>\<open>data-rating="10"\<close>.\<close>

theorem extractStarRating_unclamped:
  "extractStarRating rated_10 = Inr (Some (Num 10)) \<and> (5::rat) < 10"
  by code_simp

section \<open>Properties of the page adapter\<close>

lemma foldl_invariant:
  assumes "P a" and "\<And>a x. P a \<Longrightarrow> P (f a x)"
  shows "P (foldl f a xs)"
  using assms(1) by (induction xs arbitrary: a) (auto intro: assms(2))

lemma error_TypeError: "(e :: error) = TypeError"
  by (cases e) simp

lemma resolved_stars_not_NaN: "resolved_stars el = Inr v \<Longrightarrow> v \<noteq> NaN"
  using extractStarRating_round
  by (auto simp: resolved_stars_def split: option.splits sum.splits)

lemma visit_stars:
  assumes "visit reviews el = Inr rs" and "list_all star_ok reviews"
  shows "list_all star_ok rs"
proof -
  have "star_ok \<lparr>text = t, stars = js_min (Num 5) (js_max (Num 1) (js_round v))\<rparr>"
    if "resolved_stars el = Inr v" for t v
    using clamp_range[OF resolved_stars_not_NaN[OF that]] by (simp add: star_ok_def)
  with assms show ?thesis
    by (auto simp: visit_def split: option.splits if_splits sum.splits)
qed

lemma forEach_stars: "list_all star_ok reviews \<Longrightarrow> list_all star_ok (forEach reviews els)"
  by (induction els arbitrary: reviews) (auto split: sum.splits dest: visit_stars)

lemma scan_stars: "list_all star_ok (scan doc)"
  unfolding scan_def by (rule foldl_invariant, simp, rule forEach_stars)

lemma with_selection_stars: "list_all star_ok reviews \<Longrightarrow> list_all star_ok (with_selection doc reviews)"
  by (auto simp: with_selection_def star_ok_def split: option.splits intro: exI[of _ 3])

lemma extractReviews_stars: "list_all star_ok (extractReviews doc)"
  unfolding extractReviews_def
  using with_selection_stars[OF scan_stars, of doc]
  by (auto simp: list_all_iff dest: in_set_takeD)

lemma visit_texts_returned:
  "visit reviews el = Inr rs \<Longrightarrow> text ` set rs = text ` set reviews \<union> accepted_text el"
  by (cases "innerText el")
     (auto simp: visit_def accepted_text_def list_ex_iff split: if_splits sum.splits intro: rev_image_eqI)

lemma visit_returns: "resolved_stars el \<noteq> Inl TypeError \<Longrightarrow> \<exists>rs. visit reviews el = Inr rs"
  by (cases "resolved_stars el"; cases "innerText el")
     (auto simp: visit_def error_TypeError split: if_splits sum.splits)

lemma forEach_texts_subset:
  "text ` set (forEach reviews els) \<subseteq> text ` set reviews \<union> (\<Union>el\<in>set els. accepted_text el)"
proof (induction els arbitrary: reviews)
  case Nil
  then show ?case by simp
next
  case (Cons el els)
  show ?case
  proof (cases "visit reviews el")
    case (Inl e)
    then show ?thesis by auto
  next
    case (Inr rs)
    with Cons.IH[of rs] visit_texts_returned[OF Inr] show ?thesis by auto
  qed
qed

lemma forEach_texts:
  "\<forall>el\<in>set els. resolved_stars el \<noteq> Inl TypeError \<Longrightarrow>
   text ` set (forEach reviews els) = text ` set reviews \<union> (\<Union>el\<in>set els. accepted_text el)"
proof (induction els arbitrary: reviews)
  case Nil
  then show ?case by simp
next
  case (Cons el els)
  then obtain rs where rs: "visit reviews el = Inr rs" using visit_returns[of el reviews] by auto
  from Cons have "text ` set (forEach rs els) = text ` set rs \<union> (\<Union>el\<in>set els. accepted_text el)"
    by simp
  with rs visit_texts_returned[OF rs] show ?case by auto
qed

lemma scan_texts_subset:
  "text ` set (foldl (\<lambda>reviews selector. forEach reviews (querySelectorAll doc selector)) reviews sels)
     \<subseteq> text ` set reviews \<union> (\<Union>selector\<in>set sels. \<Union>el\<in>set (querySelectorAll doc selector). accepted_text el)"
proof (induction sels arbitrary: reviews)
  case Nil
  then show ?case by simp
next
  case (Cons sel sels)
  from Cons.IH[of "forEach reviews (querySelectorAll doc sel)"]
    forEach_texts_subset[of reviews "querySelectorAll doc sel"]
  show ?case by auto
qed

lemma scan_texts:
  "\<forall>selector\<in>set sels. \<forall>el\<in>set (querySelectorAll doc selector). resolved_stars el \<noteq> Inl TypeError \<Longrightarrow>
   text ` set (foldl (\<lambda>reviews selector. forEach reviews (querySelectorAll doc selector)) reviews sels)
     = text ` set reviews \<union> (\<Union>selector\<in>set sels. \<Union>el\<in>set (querySelectorAll doc selector). accepted_text el)"
proof (induction sels arbitrary: reviews)
  case Nil
  then show ?case by simp
next
  case (Cons sel sels)
  then have a: "\<forall>el\<in>set (querySelectorAll doc sel). resolved_stars el \<noteq> Inl TypeError"
    and b: "\<forall>selector\<in>set sels. \<forall>el\<in>set (querySelectorAll doc selector). resolved_stars el \<noteq> Inl TypeError"
    by auto
  from Cons.IH[OF b, of "forEach reviews (querySelectorAll doc sel)"] forEach_texts[OF a, of reviews]
  show ?case by auto
qed

lemma accepted_union:
  "(\<Union>selector\<in>set sels. \<Union>el\<in>set (querySelectorAll doc selector). accepted_text el)
     = {t. \<exists>selector\<in>set sels. \<exists>x\<in>set (querySelectorAll doc selector).
             \<exists>s. innerText x = Some s \<and> t = trim s \<and> 20 < length t \<and> length t < 5000}"
  by (auto simp: accepted_text_def)

lemma visit_accepts:
  "(\<exists>c. visit reviews el = Inr (reviews @ [c])) \<longleftrightarrow>
     (\<exists>s. innerText el = Some s \<and> 20 < length (trim s) \<and> length (trim s) < 5000
          \<and> trim s \<notin> text ` set reviews \<and> resolved_stars el \<noteq> Inl TypeError)"
  by (cases "resolved_stars el"; cases "innerText el")
     (auto simp: visit_def list_ex_iff error_TypeError split: if_splits intro: rev_image_eqI)

lemma visit_throws:
  "visit reviews el = Inl TypeError \<longleftrightarrow>
     (\<exists>s. innerText el = Some s \<and> 20 < length (trim s) \<and> length (trim s) < 5000
          \<and> trim s \<notin> text ` set reviews \<and> resolved_stars el = Inl TypeError)"
  by (cases "resolved_stars el"; cases "innerText el")
     (auto simp: visit_def list_ex_iff error_TypeError split: if_splits intro: rev_image_eqI)

text \<open>
  Claim C6, as the code has it. An element that the loop visits adds a candidate exactly
  when its trimmed text has more than 20 and fewer than 5000 characters (21 to 4999),
  no earlier candidate has that text, and the star resolution for it does not throw.
  When it throws (same conditions, but a star icon whose \<^verbatim>\<open>className\<close> is not a
  string), no candidate is added and the loop over this selector's elements ends there.
  So the texts gathered are always among the trimmed texts of matched elements with
  such a length, and they are all of them on a page where no star resolution throws.
\<close>

theorem scan_accepts:
  "((\<exists>c. visit reviews el = Inr (reviews @ [c])) \<longleftrightarrow>
      (\<exists>s. innerText el = Some s \<and> 20 < length (trim s) \<and> length (trim s) < 5000
           \<and> trim s \<notin> text ` set reviews \<and> resolved_stars el \<noteq> Inl TypeError))
   \<and> (visit reviews el = Inl TypeError \<longleftrightarrow>
      (\<exists>s. innerText el = Some s \<and> 20 < length (trim s) \<and> length (trim s) < 5000
           \<and> trim s \<notin> text ` set reviews \<and> resolved_stars el = Inl TypeError))
   \<and> (visit reviews el = Inl TypeError \<longrightarrow> forEach reviews (el # els) = reviews)
   \<and> text ` set (scan doc) \<subseteq>
       {t. \<exists>selector\<in>set selectors. \<exists>x\<in>set (querySelectorAll doc selector).
             \<exists>s. innerText x = Some s \<and> t = trim s \<and> 20 < length t \<and> length t < 5000}
   \<and> ((\<forall>selector\<in>set selectors. \<forall>x\<in>set (querySelectorAll doc selector).
          resolved_stars x \<noteq> Inl TypeError)
      \<longrightarrow> text ` set (scan doc) =
       {t. \<exists>selector\<in>set selectors. \<exists>x\<in>set (querySelectorAll doc selector).
             \<exists>s. innerText x = Some s \<and> t = trim s \<and> 20 < length t \<and> length t < 5000})"
proof -
  have sub: "text ` set (scan doc) \<subseteq>
       {t. \<exists>selector\<in>set selectors. \<exists>x\<in>set (querySelectorAll doc selector).
             \<exists>s. innerText x = Some s \<and> t = trim s \<and> 20 < length t \<and> length t < 5000}"
    using scan_texts_subset[of doc "[]" selectors]
    unfolding scan_def accepted_union by simp
  have eq: "text ` set (scan doc) =
       {t. \<exists>selector\<in>set selectors. \<exists>x\<in>set (querySelectorAll doc selector).
             \<exists>s. innerText x = Some s \<and> t = trim s \<and> 20 < length t \<and> length t < 5000}"
    if "\<forall>selector\<in>set selectors. \<forall>x\<in>set (querySelectorAll doc selector).
          resolved_stars x \<noteq> Inl TypeError"
    using scan_texts[OF that, of "[]"]
    unfolding scan_def accepted_union by simp
  have stop: "forEach reviews (el # els) = reviews" if "visit reviews el = Inl TypeError"
    using that by simp
  from visit_accepts[of reviews el] visit_throws[of reviews el] stop sub eq
  show ?thesis by blast
qed

text \<open>On \<^const>\<open>svg_first_page\<close> the first paragraph makes the resolver throw and neither
  paragraph is accepted; on a page without such an icon the review is.\<close>

theorem scan_accepts_witness:
  "visit [] \<lparr>innerText = Some ''The first review, long enough.'', reviewContainer = Some svg_star\<rparr>
     = Inl TypeError
   \<and> forEach [] [\<lparr>innerText = Some ''The first review, long enough.'', reviewContainer = Some svg_star\<rparr>,
                  \<lparr>innerText = Some ''The second review, long enough.'', reviewContainer = Some rated_10\<rparr>]
     = []
   \<and> extractReviews svg_first_page = []
   \<and> ''Great product, works as described.''
       \<in> text ` set (scan (one_review_page ''  Great product, works as described.  '' (Some rated_10) None))"
proof -
  let ?el = "\<lparr>innerText = Some ''The first review, long enough.'', reviewContainer = Some svg_star\<rparr>"
  let ?el2 = "\<lparr>innerText = Some ''The second review, long enough.'', reviewContainer = Some rated_10\<rparr>"
  let ?page = "one_review_page ''  Great product, works as described.  '' (Some rated_10) None"
  have v: "visit [] ?el = Inl TypeError" by code_simp
  have x: "extractReviews svg_first_page = []" by code_simp
  have h: "\<forall>selector\<in>set selectors. \<forall>x\<in>set (querySelectorAll ?page selector).
          resolved_stars x \<noteq> Inl TypeError"
    by code_simp
  have t: "trim ''  Great product, works as described.  '' = ''Great product, works as described.''"
    by code_simp
  have m: "''.review-text-content'' \<in> set selectors" by (simp add: selectors_def)
  have "''Great product, works as described.'' \<in>
       {t. \<exists>selector\<in>set selectors. \<exists>x\<in>set (querySelectorAll ?page selector).
             \<exists>s. innerText x = Some s \<and> t = trim s \<and> 20 < length t \<and> length t < 5000}"
    using m t by (auto simp: one_review_page_def intro!: bexI[of _ "''.review-text-content''"])
  with scan_accepts[of "[]" ?el "[?el2]" ?page] v x h show ?thesis by simp
qed

lemma trim_replicate: "\<not> is_space c \<Longrightarrow> trim (replicate n c) = replicate n c"
  by (cases n) (auto simp: trim_def dropWhile_append3 simp flip: replicate_append_same)

text \<open>A text of exactly 20 characters and a text of exactly 5000 characters are both
  rejected.\<close>

theorem extractReviews_rejects_bounds:
  "length (trim ''12345678901234567890'') = 20
   \<and> extractReviews (one_review_page ''12345678901234567890'' None None) = []
   \<and> length (trim (replicate 5000 (CHR ''a''))) = 5000
   \<and> extractReviews (one_review_page (replicate 5000 (CHR ''a'')) None None) = []"
proof -
  have a: "length (trim ''12345678901234567890'') = 20
     \<and> extractReviews (one_review_page ''12345678901234567890'' None None) = []"
    by code_simp
  have s: "\<not> is_space (CHR ''a'')" by (simp add: is_space_def)
  have b: "length (trim (replicate 5000 (CHR ''a''))) = 5000
     \<and> extractReviews (one_review_page (replicate 5000 (CHR ''a'')) None None) = []"
    by (simp add: trim_replicate s extractReviews_def scan_def selectors_def one_review_page_def
        visit_def with_selection_def)
  from a b show ?thesis by blast
qed

lemma visit_distinct:
  "visit reviews el = Inr rs \<Longrightarrow> distinct (map text reviews) \<Longrightarrow> distinct (map text rs)"
  by (cases "innerText el") (fastforce simp: visit_def list_ex_iff split: if_splits sum.splits)+

lemma forEach_distinct: "distinct (map text reviews) \<Longrightarrow> distinct (map text (forEach reviews els))"
  by (induction els arbitrary: reviews) (auto split: sum.splits dest: visit_distinct)

lemma scan_distinct: "distinct (map text (scan doc))"
  unfolding scan_def by (rule foldl_invariant, simp, rule forEach_distinct)

text \<open>
  Claim C7. Within one pass the candidates gathered from the selector groups have
  pairwise different texts (\<open>scan_distinct\<close>), but the returned list can hold the same
  text twice: the selection is put in front without the check. Here the user has
  selected the text of the one review of the page.
\<close>

theorem extractReviews_selection_duplicate:
  "extractReviews (one_review_page ''Great product, works as described.'' (Some rated_10)
       (Some ''Great product, works as described.''))
     = [\<lparr>text = ''Great product, works as described.'', stars = Num 3\<rparr>,
        \<lparr>text = ''Great product, works as described.'', stars = Num 5\<rparr>]
   \<and> \<not> distinct (map text (extractReviews (one_review_page ''Great product, works as described.''
       (Some rated_10) (Some ''Great product, works as described.''))))"
  by code_simp

text \<open>
  Claim C10. Every candidate that \<^const>\<open>extractReviews\<close> returns has a star value that
  is an integer from 1 to 5: the wrapper rounds and clamps whatever the resolver
  produced, 3 stands in when the resolver returns null or no container is found, and the
  candidate made from the selection carries 3.
\<close>

theorem extractReviews_stars_in_range:
  "c \<in> set (extractReviews doc) \<Longrightarrow> \<exists>k. 1 \<le> k \<and> k \<le> 5 \<and> stars c = Num (of_int k)"
  using extractReviews_stars[of doc] by (auto simp: list_all_iff star_ok_def)

text \<open>The resolver returns 10 for \<^const>\<open>rated_10\<close>; the candidate carries 5.\<close>

theorem extractReviews_stars_in_range_witness:
  "\<lparr>text = ''Great product, works as described.'', stars = Num 5\<rparr>
     \<in> set (extractReviews (one_review_page ''  Great product, works as described.  '' (Some rated_10) None))
   \<and> (\<exists>k. 1 \<le> k \<and> k \<le> 5 \<and> stars \<lparr>text = ''Great product, works as described.'', stars = Num 5\<rparr> = Num (of_int k))"
proof -
  have h: "\<lparr>text = ''Great product, works as described.'', stars = Num 5\<rparr>
     \<in> set (extractReviews (one_review_page ''  Great product, works as described.  '' (Some rated_10) None))"
    by code_simp
  from extractReviews_stars_in_range[OF h] h show ?thesis by blast
qed

section \<open>Properties of the orchestrator\<close>

lemma body_plain [simp]: "body (r::candidate) = r"
  by (simp add: body_def)

lemma analyzeOne_body:
  "map body (analyzeOne res r results) = map body results @ (if succeeded res then [r] else [])"
  by (cases "(res, r, results)" rule: analyzeOne.cases) (auto simp: mapped_def body_def)

lemma analyzeLoop_posted:
  "snd (analyzeLoop fetch revs (results, sent)) = sent @ revs"
  by (induction revs arbitrary: results sent) auto

lemma analyzeLoop_results:
  "map body (fst (analyzeLoop fetch revs (results, sent))) =
     map body results @ map snd (filter (\<lambda>(i, r). succeeded (fetch i r)) (enumerate (length sent) revs))"
  by (induction revs arbitrary: results sent) (auto simp: analyzeOne_body)

text \<open>
  Claim C1. \<^const>\<open>analyzeReviews\<close> returns the first min(20, length) candidates whose call
  succeeded, in their order, each with the service's fields added; it posts each of
  those first candidates once, in order, whatever the earlier calls gave (a failure
  neither ends the loop nor is tried again); ten candidates of which three fail give
  seven results.
\<close>

theorem analyzeReviews_subsequence:
  "map body (fst (analyzeReviews fetch reviews)) =
     map snd (filter (\<lambda>(i, r). succeeded (fetch i r)) (enumerate 0 (take (min 20 (length reviews)) reviews)))
   \<and> snd (analyzeReviews fetch reviews) = take (min 20 (length reviews)) reviews
   \<and> (length reviews = 10 \<and> length (filter (\<lambda>(i, r). \<not> succeeded (fetch i r)) (enumerate 0 reviews)) = 3
        \<longrightarrow> length (fst (analyzeReviews fetch reviews)) = 7)"
proof -
  have t: "take (min 20 (length reviews)) reviews = take 20 reviews"
    by (cases "20 \<le> length reviews") (simp_all add: min_def)
  have a: "map body (fst (analyzeReviews fetch reviews)) =
     map snd (filter (\<lambda>(i, r). succeeded (fetch i r)) (enumerate 0 (take 20 reviews)))"
    using analyzeLoop_results[of fetch "take 20 reviews" "[]" "[]"] by (simp add: analyzeReviews_def)
  have b: "snd (analyzeReviews fetch reviews) = take 20 reviews"
    using analyzeLoop_posted[of fetch "take 20 reviews" "[]" "[]"] by (simp add: analyzeReviews_def)
  have c: "length (fst (analyzeReviews fetch reviews)) = 7"
    if l: "length reviews = 10"
    and f: "length (filter (\<lambda>(i, r). \<not> succeeded (fetch i r)) (enumerate 0 reviews)) = 3"
  proof -
    let ?P = "\<lambda>(i, r). succeeded (fetch i r)"
    have "length (filter ?P (enumerate 0 reviews)) + length (filter (\<lambda>x. \<not> ?P x) (enumerate 0 reviews))
            = length (enumerate 0 reviews)"
      by (rule sum_length_filter_compl)
    moreover have "(\<lambda>x. \<not> ?P x) = (\<lambda>(i, r). \<not> succeeded (fetch i r))" by auto
    ultimately have seven: "length (filter ?P (enumerate 0 reviews)) = 7" using l f by simp
    have "take 20 reviews = reviews" using l by simp
    moreover have "length (fst (analyzeReviews fetch reviews)) = length (map body (fst (analyzeReviews fetch reviews)))"
      by simp
    ultimately have "length (fst (analyzeReviews fetch reviews)) = length (map snd (filter ?P (enumerate 0 reviews)))"
      using a by metis
    with \<open>length (filter ?P (enumerate 0 reviews)) = 7\<close> show ?thesis by simp
  qed
  from a b c t show ?thesis by (simp del: take_all_iff)
qed

theorem analyzeReviews_subsequence_witness:
  "length ten_reviews = 10
   \<and> length (filter (\<lambda>(i, r). \<not> succeeded (flaky i r)) (enumerate 0 ten_reviews)) = 3
   \<and> length (fst (analyzeReviews flaky ten_reviews)) = 7
   \<and> map text (fst (analyzeReviews flaky ten_reviews)) = [''r0'', ''r2'', ''r3'', ''r5'', ''r6'', ''r8'', ''r9'']"
proof -
  have l: "length ten_reviews = 10" by code_simp
  have f: "length (filter (\<lambda>(i, r). \<not> succeeded (flaky i r)) (enumerate 0 ten_reviews)) = 3"
    by code_simp
  have m: "map text (fst (analyzeReviews flaky ten_reviews)) = [''r0'', ''r2'', ''r3'', ''r5'', ''r6'', ''r8'', ''r9'']"
    by code_simp
  from analyzeReviews_subsequence[of flaky ten_reviews] l f m show ?thesis by blast
qed

section \<open>Properties of the aggregator\<close>

lemma foldl_stars:
  "map stars results = map Num ss \<Longrightarrow>
   foldl (\<lambda>sum r. js_add sum (stars r)) (Num a) results = Num (a + sum_list ss)"
proof (induction results arbitrary: a ss)
  case Nil
  then show ?case by simp
next
  case (Cons r results)
  then obtain s ss' where "ss = s # ss'" "stars r = Num s" "map stars results = map Num ss'"
    by (cases ss) auto
  with Cons.IH[of ss' "a + s"] show ?case by (simp add: add.assoc)
qed

lemma sum_stars_Num: "map stars results = map Num ss \<Longrightarrow> sum_stars results = Num (sum_list ss)"
  using foldl_stars[of results ss 0] by (simp add: sum_stars_def)

lemma bookmarklet_same: "calculateTruthGap_bookmarklet results = calculateTruthGap results None"
  by (simp add: calculateTruthGap_def calculateTruthGap_bookmarklet_def)

lemma avgDisplayed_mean:
  assumes "results \<noteq> []" "map stars results = map Num ss"
  shows "avgDisplayed (calculateTruthGap results displayed) =
     (case displayed of None \<Rightarrow> Num (sum_list ss / of_nat (length results))
      | Some x \<Rightarrow> if truthy x then x else Num (sum_list ss / of_nat (length results)))"
  using assms sum_stars_Num[OF assms(2)]
  by (cases displayed) (simp_all add: calculateTruthGap_def Let_def)




lemma bookmarklet64_same: "calculateTruthGap64_bookmarklet results = calculateTruthGap64 results None"
  by (simp add: calculateTruthGap64_def calculateTruthGap64_bookmarklet_def)

lemma foldl_stars64:
  "map stars results = map Num ss \<Longrightarrow>
   foldl (\<lambda>sum r. add64 sum (stars r)) a results = foldl (\<lambda>sum w. add64 sum (Num w)) a ss"
proof (induction results arbitrary: a ss)
  case Nil
  then show ?case by simp
next
  case (Cons r results)
  then obtain w ss' where "ss = w # ss'" "stars r = Num w" "map stars results = map Num ss'"
    by (cases ss) auto
  with Cons.IH[of ss' "add64 a (Num w)"] show ?case by simp
qed

lemma avgDisplayed64_mean:
  assumes "results \<noteq> []" "map stars results = map Num ss"
  shows "avgDisplayed (calculateTruthGap64 results displayed) =
     (case displayed of None \<Rightarrow> mean64 ss | Some x \<Rightarrow> if truthy x then x else mean64 ss)"
proof -
  have "length ss = length results" using assms(2) by (metis length_map)
  with assms(1) foldl_stars64[OF assms(2), of "Num 0"] show ?thesis
    by (cases displayed) (simp_all add: calculateTruthGap64_def Let_def sum_stars64_def mean64_def)
qed



text \<open>
  Claim C8. On an empty list of analyzed reviews, whatever the page context, the
  aggregation gives the zero state: true rating, displayed rating and gap are 0, and
  the counts of human, bot and low-effort reviews and the total are 0. The last three
  equations say the same of the functions in the arithmetic of doubles.
\<close>

theorem aggregate_empty:
  "calculateTruthGap [] displayed = \<lparr>gap = Num 0, avgDisplayed = Num 0, avgTrue = Num 0\<rparr>
   \<and> calculateTruthGap_bookmarklet [] = \<lparr>gap = Num 0, avgDisplayed = Num 0, avgTrue = Num 0\<rparr>
   \<and> renderResults pageInfo [] =
        (\<lparr>gap = Num 0, avgDisplayed = Num 0, avgTrue = Num 0\<rparr>,
         \<lparr>human = 0, bot = 0, lowEffort = 0, total = 0\<rparr>)
   \<and> calculateTruthGap64 [] displayed = \<lparr>gap = Num 0, avgDisplayed = Num 0, avgTrue = Num 0\<rparr>
   \<and> calculateTruthGap64_bookmarklet [] = \<lparr>gap = Num 0, avgDisplayed = Num 0, avgTrue = Num 0\<rparr>
   \<and> renderResults64 pageInfo [] =
        (\<lparr>gap = Num 0, avgDisplayed = Num 0, avgTrue = Num 0\<rparr>,
         \<lparr>human = 0, bot = 0, lowEffort = 0, total = 0\<rparr>)"
  by (simp add: calculateTruthGap_def calculateTruthGap_bookmarklet_def renderResults_def credCounts_def
      calculateTruthGap64_def calculateTruthGap64_bookmarklet_def renderResults64_def)

text \<open>
  Claim C3, as the code has it. For a non-empty list of analyzed reviews with finite
  stars, the displayed rating of the popup is the page context's
  \<^verbatim>\<open>displayedRating\<close> when that is present, not null and truthy (neither 0 nor NaN),
  and the unweighted mean of the stars otherwise; the bookmarklet, whose page context has
  no such field, always gives the mean. The first two equations have the mean in exact
  arithmetic, the last two as the engine computes it.
\<close>

theorem renderResults_displayed:
  "results \<noteq> [] \<and> map stars results = map Num ss \<longrightarrow>
     avgDisplayed (fst (renderResults pageInfo results)) =
       (case pageInfo of
          None \<Rightarrow> Num (sum_list ss / of_nat (length results))
        | Some p \<Rightarrow>
            (case displayedRating p of
               None \<Rightarrow> Num (sum_list ss / of_nat (length results))
             | Some x \<Rightarrow> if truthy x then x else Num (sum_list ss / of_nat (length results))))
     \<and> avgDisplayed (calculateTruthGap_bookmarklet results) = Num (sum_list ss / of_nat (length results))
     \<and> avgDisplayed (fst (renderResults64 pageInfo results)) =
       (case pageInfo of
          None \<Rightarrow> mean64 ss
        | Some p \<Rightarrow>
            (case displayedRating p of
               None \<Rightarrow> mean64 ss
             | Some x \<Rightarrow> if truthy x then x else mean64 ss))
     \<and> avgDisplayed (calculateTruthGap64_bookmarklet results) = mean64 ss"
proof
  assume a: "results \<noteq> [] \<and> map stars results = map Num ss"
  then have ne: "results \<noteq> []" and st: "map stars results = map Num ss" by auto
  have exact: "avgDisplayed (fst (renderResults pageInfo results)) =
       (case pageInfo of
          None \<Rightarrow> Num (sum_list ss / of_nat (length results))
        | Some p \<Rightarrow>
            (case displayedRating p of
               None \<Rightarrow> Num (sum_list ss / of_nat (length results))
             | Some x \<Rightarrow> if truthy x then x else Num (sum_list ss / of_nat (length results))))
     \<and> avgDisplayed (calculateTruthGap_bookmarklet results) = Num (sum_list ss / of_nat (length results))"
    using avgDisplayed_mean[OF ne st, of "displayed_or_null pageInfo"] avgDisplayed_mean[OF ne st, of None]
    by (auto simp: renderResults_def displayed_or_null_def bookmarklet_same split: option.splits)
  have doubles: "avgDisplayed (fst (renderResults64 pageInfo results)) =
       (case pageInfo of
          None \<Rightarrow> mean64 ss
        | Some p \<Rightarrow>
            (case displayedRating p of
               None \<Rightarrow> mean64 ss
             | Some x \<Rightarrow> if truthy x then x else mean64 ss))
     \<and> avgDisplayed (calculateTruthGap64_bookmarklet results) = mean64 ss"
    using avgDisplayed64_mean[OF ne st, of "displayed_or_null pageInfo"] avgDisplayed64_mean[OF ne st, of None]
    by (auto simp: renderResults64_def displayed_or_null_def bookmarklet64_same split: option.splits)
  from exact doubles
  show "avgDisplayed (fst (renderResults pageInfo results)) =
       (case pageInfo of
          None \<Rightarrow> Num (sum_list ss / of_nat (length results))
        | Some p \<Rightarrow>
            (case displayedRating p of
               None \<Rightarrow> Num (sum_list ss / of_nat (length results))
             | Some x \<Rightarrow> if truthy x then x else Num (sum_list ss / of_nat (length results))))
     \<and> avgDisplayed (calculateTruthGap_bookmarklet results) = Num (sum_list ss / of_nat (length results))
     \<and> avgDisplayed (fst (renderResults64 pageInfo results)) =
       (case pageInfo of
          None \<Rightarrow> mean64 ss
        | Some p \<Rightarrow>
            (case displayedRating p of
               None \<Rightarrow> mean64 ss
             | Some x \<Rightarrow> if truthy x then x else mean64 ss))
     \<and> avgDisplayed (calculateTruthGap64_bookmarklet results) = mean64 ss"
    by simp
qed

text \<open>A page that displays 4.7 over the four reviews of \<^const>\<open>four_scored\<close>.\<close>

theorem renderResults_displayed_witness:
  "four_scored \<noteq> [] \<and> map stars four_scored = map Num [5, 5, 3, 1]
   \<and> avgDisplayed (fst (renderResults (Some \<lparr>site = ''amazon'', displayedRating = Some (Num (47 / 10))\<rparr>) four_scored))
       = Num (47 / 10)
   \<and> avgDisplayed (fst (renderResults (Some \<lparr>site = ''yelp'', displayedRating = None\<rparr>) four_scored))
       = Num (7 / 2)
   \<and> avgDisplayed (fst (renderResults64 (Some \<lparr>site = ''amazon'', displayedRating = Some (Num (47 / 10))\<rparr>) four_scored))
       = Num (47 / 10)
   \<and> avgDisplayed (fst (renderResults64 (Some \<lparr>site = ''yelp'', displayedRating = None\<rparr>) four_scored))
       = Num (7 / 2)"
proof -
  have m: "mean64 [5, 5, 3, 1] = Num (7 / 2)" by code_simp
  have h: "four_scored \<noteq> [] \<and> map stars four_scored = map Num [5, 5, 3, 1]"
    by (simp add: four_scored_def scored_def)
  have l: "length four_scored = 4" by (simp add: four_scored_def)
  from renderResults_displayed[of four_scored "[5, 5, 3, 1]"
      "Some \<lparr>site = ''amazon'', displayedRating = Some (Num (47 / 10))\<rparr>"]
    renderResults_displayed[of four_scored "[5, 5, 3, 1]" "Some \<lparr>site = ''yelp'', displayedRating = None\<rparr>"]
    h l m
  show ?thesis by simp
qed

text \<open>A page context whose displayed rating is 0 is not used: the mean of the stars
  is.\<close>

theorem renderResults_displayed_zero:
  "displayedRating \<lparr>site = ''amazon'', displayedRating = Some (Num 0)\<rparr> = Some (Num 0)
   \<and> avgDisplayed (fst (renderResults (Some \<lparr>site = ''amazon'', displayedRating = Some (Num 0)\<rparr>)
        [scored 5 (Some (Num 4))])) = Num 5
   \<and> avgDisplayed (fst (renderResults64 (Some \<lparr>site = ''amazon'', displayedRating = Some (Num 0)\<rparr>)
        [scored 5 (Some (Num 4))])) = Num 5"
  by code_simp




section \<open>Properties of the load-more session\<close>

lemma guarded_rendered: "guarded (rendered results reviews bodies)"
  by (simp add: guarded_def rendered_def)

lemma guarded_click: "guarded s \<Longrightarrow> guarded (handleLoadMore s)"
  by (auto simp: guarded_def handleLoadMore_def)

lemma guarded_finish: "guarded s \<Longrightarrow> guarded (finish 0 (s\<lparr>button := b\<rparr>))"
  by (cases "tasks s") (auto simp: guarded_def finish_def)

lemma guarded_merge: "guarded s \<Longrightarrow> guarded (merge 0 additional newResults s)"
  by (cases "tasks s") (auto simp: guarded_def merge_def finish_def)

lemma guarded_update: "guarded s \<Longrightarrow> tasks s \<noteq> [] \<Longrightarrow> guarded (s\<lparr>tasks := (tasks s)[0 := t]\<rparr>)"
  by (auto simp: guarded_def)

lemma guarded_update_posted:
  "guarded s \<Longrightarrow> tasks s \<noteq> [] \<Longrightarrow> guarded (s\<lparr>tasks := (tasks s)[0 := t], posted := p\<rparr>)"
  by (auto simp: guarded_def)

lemma guarded_resume: "guarded s \<Longrightarrow> guarded (resume i sg s)"
proof -
  assume g: "guarded s"
  show ?thesis
  proof (cases "i < length (tasks s)")
    case False
    then show ?thesis using g by (simp add: resume_def)
  next
    case True
    with g have i0: "i = 0" and ne: "tasks s \<noteq> []" by (auto simp: guarded_def)
    show ?thesis
      unfolding resume_def i0
      using g ne guarded_finish[OF g] guarded_merge[OF g] guarded_update[OF g ne]
        guarded_update_posted[OF g ne]
      by (auto simp: Let_def split: task.splits signal.splits list.splits)
  qed
qed

lemma guarded_step: "guarded s \<Longrightarrow> guarded (step s e)"
  by (cases e) (auto intro: guarded_click guarded_resume)

lemma reachable_guarded: "reachable s \<Longrightarrow> guarded s"
  by (induction rule: reachable.induct) (auto intro: guarded_rendered guarded_step)

lemma popup_guarded_opened: "popup_guarded popup_opened"
  by (simp add: popup_guarded_def popup_opened_def)

lemma popup_guarded_clicks:
  "popup_guarded p \<Longrightarrow> popup_guarded (handleAnalyze p)"
  "popup_guarded p \<Longrightarrow> popup_guarded (popup_handleLoadMore p)"
  by (auto simp: popup_guarded_def handleAnalyze_def popup_handleLoadMore_def)

lemma popup_guarded_resume: "popup_guarded p \<Longrightarrow> popup_guarded (popup_resume i sg p)"
proof -
  assume g: "popup_guarded p"
  show ?thesis
  proof (cases "i < length (popup_tasks p)")
    case False
    then show ?thesis using g by (simp add: popup_resume_def)
  next
    case True
    with g obtain t where i0: "i = 0" and ts: "popup_tasks p = [t]" and l: "isLoading p"
      by (cases "popup_tasks p") (auto simp: popup_guarded_def)
    show ?thesis
      unfolding popup_resume_def i0
      using ts l
      by (auto simp: popup_guarded_def popup_finish_def Let_def
          split: popup_task.splits popup_signal.splits list.splits option.splits)
  qed
qed

lemma popup_guarded_step: "popup_guarded p \<Longrightarrow> popup_guarded (popup_step p e)"
  by (cases e) (auto intro: popup_guarded_clicks popup_guarded_resume)

lemma popup_reachable_guarded: "popup_reachable p \<Longrightarrow> popup_guarded p"
  by (induction rule: popup_reachable.induct) (auto intro: popup_guarded_opened popup_guarded_step)

lemma reachable_run: "reachable s \<Longrightarrow> reachable (run s es)"
  unfolding run_def by (induction es rule: rev_induct) (auto intro: reachable.after_step)

lemma popup_reachable_foldl: "popup_reachable p \<Longrightarrow> popup_reachable (foldl popup_step p es)"
  by (induction es rule: rev_induct) (auto intro: popup_reachable.popup_after_step)

text \<open>
  Claim C9. In every state that clicks and resumptions can reach, in any order, at most
  one invocation of \<^verbatim>\<open>handleLoadMore\<close> is in flight, and the flag is set exactly then; a
  click that arrives while the flag is set returns at the guard and leaves the session
  as it is: no new pass is started, nothing is posted, and no failure is shown. This
  holds for the bookmarklet, and for the popup, where the flag is shared with
  \<^verbatim>\<open>handleAnalyze\<close>, so that at most one invocation of either handler is in flight.
\<close>

theorem one_load_more_in_flight:
  "(reachable s \<longrightarrow>
      length (tasks s) \<le> 1 \<and> (isLoadingMore s \<longleftrightarrow> tasks s \<noteq> [])
      \<and> (isLoadingMore s \<longrightarrow> step s Click = s))
   \<and> (popup_reachable p \<longrightarrow>
      length (popup_tasks p) \<le> 1 \<and> (isLoading p \<longleftrightarrow> popup_tasks p \<noteq> [])
      \<and> (isLoading p \<longrightarrow> popup_step p Click_load_more = p \<and> popup_step p Click_analyze = p))"
  using reachable_guarded[of s] popup_reachable_guarded[of p]
  by (auto simp: guarded_def handleLoadMore_def popup_guarded_def popup_handleLoadMore_def
      handleAnalyze_def)

text \<open>Three clicks around the end of the scroll in the bookmarklet: one invocation,
  waiting for the page to settle. In the popup, a click on load more, the tab, then a
  click on each button: one invocation, waiting for the content script.\<close>

theorem one_load_more_in_flight_witness:
  "reachable (run first_rendered [Click, Click, Resume 0 Scrolled, Click])
   \<and> tasks (run first_rendered [Click, Click, Resume 0 Scrolled, Click]) = [AwaitSettle]
   \<and> isLoadingMore (run first_rendered [Click, Click, Resume 0 Scrolled, Click])
   \<and> step (run first_rendered [Click, Click, Resume 0 Scrolled, Click]) Click
       = run first_rendered [Click, Click, Resume 0 Scrolled, Click]
   \<and> popup_reachable (foldl popup_step popup_opened
        [Click_load_more, Popup_resume 0 Resolved, Click_load_more, Click_analyze])
   \<and> popup_tasks (foldl popup_step popup_opened
        [Click_load_more, Popup_resume 0 Resolved, Click_load_more, Click_analyze]) = [More_answer]
   \<and> popup_step (foldl popup_step popup_opened
        [Click_load_more, Popup_resume 0 Resolved, Click_load_more, Click_analyze]) Click_load_more
       = foldl popup_step popup_opened
        [Click_load_more, Popup_resume 0 Resolved, Click_load_more, Click_analyze]"
proof -
  let ?s = "run first_rendered [Click, Click, Resume 0 Scrolled, Click]"
  let ?p = "foldl popup_step popup_opened
        [Click_load_more, Popup_resume 0 Resolved, Click_load_more, Click_analyze]"
  have "reachable first_rendered"
    unfolding first_rendered_def by (rule reachable.at_start)
  then have r: "reachable ?s" by (rule reachable_run)
  have q: "popup_reachable ?p"
    by (rule popup_reachable_foldl) (rule popup_reachable.popup_at_start)
  have t: "tasks ?s = [AwaitSettle]" by code_simp
  have u: "popup_tasks ?p = [More_answer]" by code_simp
  from one_load_more_in_flight[of ?s ?p] r q t u show ?thesis by simp
qed

lemma analyzeLoop_nth:
  "length sent + length revs \<le> length rs \<Longrightarrow>
   fst (analyzeLoop (\<lambda>i b. rs ! i) revs (results, sent)) = fed results revs (drop (length sent) rs)"
proof (induction revs arbitrary: results sent)
  case Nil
  then show ?case by (simp add: fed_def)
next
  case (Cons r revs)
  then have lt: "length sent < length rs" by simp
  have d: "drop (length sent) rs = rs ! length sent # drop (Suc (length sent)) rs"
    using lt by (simp add: Cons_nth_drop_Suc)
  from Cons.prems have "length (sent @ [body r]) + length revs \<le> length rs" by simp
  from Cons.IH[OF this] show ?case by (simp add: d fed_def)
qed

lemma analyzeReviews_fed:
  "length (take 20 reviews) \<le> length rs \<Longrightarrow>
   fst (analyzeReviews (\<lambda>i b. rs ! i) reviews) = fed [] (take 20 reviews) rs"
  using analyzeLoop_nth[of "[]" "take 20 reviews" rs "[]"] by (simp add: analyzeReviews_def)

lemma run_Cons: "run s (e # es) = run (step s e) es"
  by (simp add: run_def)

lemma run_Nil: "run s [] = s"
  by (simp add: run_def)

lemma fetch_loop:
  "tasks s = [AwaitFetch additional (r # rest) results] \<Longrightarrow> length rs = Suc (length rest) \<Longrightarrow>
   run s (map (\<lambda>x. Resume 0 (Fetched x)) rs) =
     s\<lparr>currentResults := currentResults s @ fed results (r # rest) rs,
       allExtractedReviews := allExtractedReviews s @ additional,
       isLoadingMore := False, tasks := [],
       posted := posted s @ map body rest, button := Load_more\<rparr>"
proof (induction rest arbitrary: s r results rs)
  case Nil
  then obtain x where rs: "rs = [x]" by (cases rs) auto
  show ?case using Nil(1)
    by (simp add: rs run_def resume_def merge_def finish_def fed_def)
next
  case (Cons n rest)
  then obtain x rs' where rs: "rs = x # rs'" and l: "length rs' = Suc (length rest)"
    by (cases rs) auto
  let ?s' = "s\<lparr>tasks := [AwaitFetch additional (n # rest) (analyzeOne x r results)],
                posted := posted s @ [body n]\<rparr>"
  have st: "resume 0 (Fetched x) s = ?s'"
    using Cons.prems(1) by (simp add: resume_def)
  have t': "tasks ?s' = [AwaitFetch additional (n # rest) (analyzeOne x r results)]" by simp
  from Cons.IH[OF t' l] show ?case
    by (simp add: rs run_Cons st fed_def)
qed

lemma pass_run:
  assumes i: "idle s"
    and a: "additional = additionalReviews (currentResults s) (extractReviews doc)"
    and l: "length rs = length (take 20 additional)"
  shows "run s (pass doc rs) =
     (if additional = [] then s\<lparr>button := No_more_found\<rparr>
      else s\<lparr>currentResults := currentResults s @ fed [] (take 20 additional) rs,
             allExtractedReviews := allExtractedReviews s @ additional,
             posted := posted s @ map body (take 20 additional), button := Load_more\<rparr>)"
proof -
  from i have t: "tasks s = []" and f: "\<not> isLoadingMore s" by (auto simp: idle_def)
  let ?s1 = "s\<lparr>isLoadingMore := True, button := Loading, tasks := [AwaitScroll]\<rparr>"
  let ?s2 = "s\<lparr>isLoadingMore := True, button := Loading, tasks := [AwaitSettle]\<rparr>"
  have c: "handleLoadMore s = ?s1" using t f by (simp add: handleLoadMore_def)
  have sc: "resume 0 Scrolled ?s1 = ?s2" by (simp add: resume_def)
  show ?thesis
  proof (cases "additional = []")
    case True
    then have rs: "rs = []" using l by simp
    have "resume 0 (Settled doc) ?s2 = s\<lparr>button := No_more_found\<rparr>"
      using True a t f by (simp add: resume_def finish_def)
    then show ?thesis using True c sc by (simp add: pass_def rs run_Cons run_Nil)
  next
    case False
    then obtain r rest where tk: "take 20 additional = r # rest"
      by (cases "take 20 additional") auto
    let ?s3 = "?s2\<lparr>tasks := [AwaitFetch additional (r # rest) []], posted := posted s @ [body r]\<rparr>"
    have st: "resume 0 (Settled doc) ?s2 = ?s3"
      using False a tk by (simp add: resume_def Let_def)
    have t3: "tasks ?s3 = [AwaitFetch additional (r # rest) []]" by simp
    have l3: "length rs = Suc (length rest)" using l tk by simp
    have "run s (pass doc rs) = run ?s3 (map (\<lambda>x. Resume 0 (Fetched x)) rs)"
      using c sc st by (simp add: pass_def run_Cons)
    also have "\<dots> = ?s3\<lparr>currentResults := currentResults ?s3 @ fed [] (r # rest) rs,
       allExtractedReviews := allExtractedReviews ?s3 @ additional,
       isLoadingMore := False, tasks := [],
       posted := posted ?s3 @ map body rest, button := Load_more\<rparr>"
      by (rule fetch_loop[OF t3 l3])
    finally show ?thesis using False tk t f by simp
  qed
qed

lemma popup_fetch_loop:
  "popup_tasks p = [More_fetch info (r # rest) results] \<Longrightarrow> length rs = Suc (length rest) \<Longrightarrow>
   foldl popup_step p (map (\<lambda>x. Popup_resume 0 (Fetch_ended x)) rs) =
     p\<lparr>popup_currentResults := popup_currentResults p @ fed results (r # rest) rs,
       popup_pageInfo := Some info, isLoading := False, popup_tasks := [],
       popup_posted := popup_posted p @ map body rest, view := Results_view\<rparr>"
proof (induction rest arbitrary: p r results rs)
  case Nil
  then obtain x where rs: "rs = [x]" by (cases rs) auto
  show ?case using Nil(1)
    by (simp add: rs popup_resume_def popup_finish_def fed_def)
next
  case (Cons n rest)
  then obtain x rs' where rs: "rs = x # rs'" and l: "length rs' = Suc (length rest)"
    by (cases rs) auto
  let ?p' = "p\<lparr>popup_tasks := [More_fetch info (n # rest) (analyzeOne x r results)],
                popup_posted := popup_posted p @ [body n]\<rparr>"
  have st: "popup_resume 0 (Fetch_ended x) p = ?p'"
    using Cons.prems(1) by (simp add: popup_resume_def)
  have t': "popup_tasks ?p' = [More_fetch info (n # rest) (analyzeOne x r results)]" by simp
  from Cons.IH[OF t' l] show ?case
    by (simp add: rs st fed_def)
qed

lemma popup_pass_run:
  assumes i: "popup_idle p"
    and a: "additional = additionalReviews (popup_currentResults p) (extractReviews doc)"
    and l: "length rs = length (take 20 additional)"
  shows "foldl popup_step p (popup_pass doc info rs) =
     (if additional = [] then p
      else p\<lparr>popup_currentResults := popup_currentResults p @ fed [] (take 20 additional) rs,
             popup_pageInfo := Some info,
             popup_posted := popup_posted p @ map body (take 20 additional), view := Results_view\<rparr>)"
proof -
  from i have t: "popup_tasks p = []" and f: "\<not> isLoading p" by (auto simp: popup_idle_def)
  let ?p1 = "p\<lparr>isLoading := True, popup_tasks := [More_tab]\<rparr>"
  let ?p2 = "p\<lparr>isLoading := True, popup_tasks := [More_answer]\<rparr>"
  have c: "popup_handleLoadMore p = ?p1" using t f by (simp add: popup_handleLoadMore_def)
  have sc: "popup_resume 0 Resolved ?p1 = ?p2" by (simp add: popup_resume_def)
  show ?thesis
  proof (cases "additional = []")
    case True
    then have rs: "rs = []" using l by simp
    have "popup_resume 0 (Answered (Some (doc, info))) ?p2 = p"
      using True a t f by (simp add: popup_resume_def popup_finish_def)
    then show ?thesis using True c sc by (simp add: popup_pass_def rs)
  next
    case False
    then have ne: "extractReviews doc \<noteq> []" using a by (auto simp: additionalReviews_def)
    from False obtain r rest where tk: "take 20 additional = r # rest"
      by (cases "take 20 additional") auto
    let ?p3 = "?p2\<lparr>popup_tasks := [More_fetch info (r # rest) []],
                    popup_posted := popup_posted p @ [body r]\<rparr>"
    have st: "popup_resume 0 (Answered (Some (doc, info))) ?p2 = ?p3"
      using False ne a tk by (simp add: popup_resume_def Let_def)
    have t3: "popup_tasks ?p3 = [More_fetch info (r # rest) []]" by simp
    have l3: "length rs = Suc (length rest)" using l tk by simp
    have "foldl popup_step p (popup_pass doc info rs)
        = foldl popup_step ?p3 (map (\<lambda>x. Popup_resume 0 (Fetch_ended x)) rs)"
      using c sc st by (simp add: popup_pass_def)
    also have "\<dots> = ?p3\<lparr>popup_currentResults := popup_currentResults ?p3 @ fed [] (r # rest) rs,
       popup_pageInfo := Some info, isLoading := False, popup_tasks := [],
       popup_posted := popup_posted ?p3 @ map body rest, view := Results_view\<rparr>"
      by (rule popup_fetch_loop[OF t3 l3])
    finally show ?thesis using False tk t f by simp
  qed
qed

lemma text_body: "text (body r) = text r"
  by (simp add: body_def)

lemma map_text_body: "map text xs = map text (map body xs)"
  by (simp add: text_body)

lemma map_body_plain: "map body (xs :: candidate list) = xs"
  by (induction xs) simp_all

lemma new_results_texts:
  "map text (fst (analyzeReviews (\<lambda>i b. rs ! i) add))
     = map (\<lambda>(i, r). text r) (filter (\<lambda>(i, r). succeeded (rs ! i)) (enumerate 0 (take 20 add)))"
proof -
  let ?new = "fst (analyzeReviews (\<lambda>i b. rs ! i) add)"
  have "map text ?new = map text (map body ?new)" by (rule map_text_body)
  also have "\<dots> = map text (map snd (filter (\<lambda>(i, r). succeeded (rs ! i)) (enumerate 0 (take 20 add))))"
    using analyzeLoop_results[of "\<lambda>i b. rs ! i" "take 20 add" "[]" "[]"]
    by (simp add: analyzeReviews_def)
  also have "\<dots> = map (\<lambda>(i, r). text r) (filter (\<lambda>(i, r). succeeded (rs ! i)) (enumerate 0 (take 20 add)))"
    by (simp add: case_prod_unfold)
  finally show ?thesis .
qed

lemma load_more_pass:
  assumes i: "idle s"
    and l: "length rs = length (take 20 (additionalReviews (currentResults s) (extractReviews doc)))"
  shows "posted (run s (pass doc rs))
       = posted s @ take 20 (filter (\<lambda>r. text r \<notin> text ` set (currentResults s)) (extractReviews doc))
     \<and> currentResults (run s (pass doc rs))
       = currentResults s
         @ fst (analyzeReviews (\<lambda>i b. rs ! i) (additionalReviews (currentResults s) (extractReviews doc)))
     \<and> map text (currentResults (run s (pass doc rs)))
       = map text (currentResults s)
         @ map (\<lambda>(i, r). text r)
             (filter (\<lambda>(i, r). succeeded (rs ! i))
                (enumerate 0 (take 20 (filter (\<lambda>r. text r \<notin> text ` set (currentResults s)) (extractReviews doc)))))
     \<and> allExtractedReviews (run s (pass doc rs))
       = allExtractedReviews s @ filter (\<lambda>r. text r \<notin> text ` set (currentResults s)) (extractReviews doc)
     \<and> idle (run s (pass doc rs))"
proof -
  let ?add = "additionalReviews (currentResults s) (extractReviews doc)"
  let ?new = "fst (analyzeReviews (\<lambda>i b. rs ! i) ?add)"
  have add: "?add = filter (\<lambda>r. text r \<notin> text ` set (currentResults s)) (extractReviews doc)"
    by (simp add: additionalReviews_def)
  have new: "?new = fed [] (take 20 ?add) rs"
    using l by (simp add: analyzeReviews_fed)
  have r: "run s (pass doc rs) =
     (if ?add = [] then s\<lparr>button := No_more_found\<rparr>
      else s\<lparr>currentResults := currentResults s @ fed [] (take 20 ?add) rs,
             allExtractedReviews := allExtractedReviews s @ ?add,
             posted := posted s @ map body (take 20 ?add), button := Load_more\<rparr>)"
    by (rule pass_run[OF i refl l])
  have p: "posted (run s (pass doc rs)) = posted s @ take 20 ?add"
    by (simp add: r map_body_plain)
  have c: "currentResults (run s (pass doc rs)) = currentResults s @ ?new"
    using new by (simp add: r fed_def)
  have d: "idle (run s (pass doc rs))"
    using i by (simp add: r idle_def)
  have x: "allExtractedReviews (run s (pass doc rs)) = allExtractedReviews s @ ?add"
    by (simp add: r)
  show ?thesis
    using p c d x new_results_texts[of rs ?add] unfolding add by simp
qed

lemma popup_load_more_pass:
  assumes i: "popup_idle p"
    and l: "length rs = length (take 20 (additionalReviews (popup_currentResults p) (extractReviews doc)))"
  shows "popup_posted (foldl popup_step p (popup_pass doc info rs))
       = popup_posted p @ take 20 (filter (\<lambda>r. text r \<notin> text ` set (popup_currentResults p)) (extractReviews doc))
     \<and> popup_currentResults (foldl popup_step p (popup_pass doc info rs))
       = popup_currentResults p
         @ fst (analyzeReviews (\<lambda>i b. rs ! i) (additionalReviews (popup_currentResults p) (extractReviews doc)))
     \<and> map text (popup_currentResults (foldl popup_step p (popup_pass doc info rs)))
       = map text (popup_currentResults p)
         @ map (\<lambda>(i, r). text r)
             (filter (\<lambda>(i, r). succeeded (rs ! i))
                (enumerate 0 (take 20 (filter (\<lambda>r. text r \<notin> text ` set (popup_currentResults p)) (extractReviews doc)))))
     \<and> popup_idle (foldl popup_step p (popup_pass doc info rs))"
proof -
  let ?add = "additionalReviews (popup_currentResults p) (extractReviews doc)"
  let ?new = "fst (analyzeReviews (\<lambda>i b. rs ! i) ?add)"
  have add: "?add = filter (\<lambda>r. text r \<notin> text ` set (popup_currentResults p)) (extractReviews doc)"
    by (simp add: additionalReviews_def)
  have new: "?new = fed [] (take 20 ?add) rs"
    using l by (simp add: analyzeReviews_fed)
  have r: "foldl popup_step p (popup_pass doc info rs) =
     (if ?add = [] then p
      else p\<lparr>popup_currentResults := popup_currentResults p @ fed [] (take 20 ?add) rs,
             popup_pageInfo := Some info,
             popup_posted := popup_posted p @ map body (take 20 ?add), view := Results_view\<rparr>)"
    by (rule popup_pass_run[OF i refl l])
  have ps: "popup_posted (foldl popup_step p (popup_pass doc info rs)) = popup_posted p @ take 20 ?add"
    by (simp add: r map_body_plain)
  have c: "popup_currentResults (foldl popup_step p (popup_pass doc info rs)) = popup_currentResults p @ ?new"
    using new by (simp add: r fed_def)
  have d: "popup_idle (foldl popup_step p (popup_pass doc info rs))"
    using i by (simp add: r popup_idle_def)
  show ?thesis
    using ps c d new_results_texts[of rs ?add] unfolding add by simp
qed

text \<open>
  Claim C2, as the code has it. A pass of load more from a session at rest posts the
  first 20 of the extracted candidates whose text no current result has: the texts seen
  are those of the analyzed reviews, recomputed from \<^verbatim>\<open>currentResults\<close> at each pass.
  After the merge the current results are the old ones followed by what
  \<^const>\<open>analyzeReviews\<close> returns, so their texts are the old texts followed by the texts
  of the candidates whose call succeeded; the text of a candidate whose call failed is
  kept, in the bookmarklet, in \<^verbatim>\<open>allExtractedReviews\<close> only, which the filter does not
  read. The session is at rest again, so this holds pass after pass. The first part is
  the bookmarklet, the second the popup.
\<close>

theorem load_more_seen_texts:
  "(idle s \<and> length rs = length (take 20 (additionalReviews (currentResults s) (extractReviews doc)))
    \<longrightarrow>
     posted (run s (pass doc rs))
       = posted s @ take 20 (filter (\<lambda>r. text r \<notin> text ` set (currentResults s)) (extractReviews doc))
     \<and> currentResults (run s (pass doc rs))
       = currentResults s
         @ fst (analyzeReviews (\<lambda>i b. rs ! i) (additionalReviews (currentResults s) (extractReviews doc)))
     \<and> map text (currentResults (run s (pass doc rs)))
       = map text (currentResults s)
         @ map (\<lambda>(i, r). text r)
             (filter (\<lambda>(i, r). succeeded (rs ! i))
                (enumerate 0 (take 20 (filter (\<lambda>r. text r \<notin> text ` set (currentResults s)) (extractReviews doc)))))
     \<and> allExtractedReviews (run s (pass doc rs))
       = allExtractedReviews s @ filter (\<lambda>r. text r \<notin> text ` set (currentResults s)) (extractReviews doc)
     \<and> idle (run s (pass doc rs)))
   \<and> (popup_idle p
        \<and> length qs = length (take 20 (additionalReviews (popup_currentResults p) (extractReviews page)))
    \<longrightarrow>
     popup_posted (foldl popup_step p (popup_pass page info qs))
       = popup_posted p @ take 20 (filter (\<lambda>r. text r \<notin> text ` set (popup_currentResults p)) (extractReviews page))
     \<and> popup_currentResults (foldl popup_step p (popup_pass page info qs))
       = popup_currentResults p
         @ fst (analyzeReviews (\<lambda>i b. qs ! i) (additionalReviews (popup_currentResults p) (extractReviews page)))
     \<and> map text (popup_currentResults (foldl popup_step p (popup_pass page info qs)))
       = map text (popup_currentResults p)
         @ map (\<lambda>(i, r). text r)
             (filter (\<lambda>(i, r). succeeded (qs ! i))
                (enumerate 0 (take 20 (filter (\<lambda>r. text r \<notin> text ` set (popup_currentResults p)) (extractReviews page)))))
     \<and> popup_idle (foldl popup_step p (popup_pass page info qs)))"
  using load_more_pass[of s rs doc] popup_load_more_pass[of p qs page info] by blast

text \<open>The second review is new and its call throws, in the bookmarklet and in the
  popup.\<close>

theorem load_more_seen_texts_witness:
  "idle first_rendered
   \<and> length [Threw] = length (take 20 (additionalReviews (currentResults first_rendered) (extractReviews two_review_page)))
   \<and> posted (run first_rendered (pass two_review_page [Threw])) = [first_review, second_review]
   \<and> map text (currentResults (run first_rendered (pass two_review_page [Threw])))
       = [''The first review, long enough.'']
   \<and> idle (run first_rendered (pass two_review_page [Threw]))
   \<and> popup_idle popup_first_rendered
   \<and> length [Threw] = length (take 20 (additionalReviews (popup_currentResults popup_first_rendered)
        (extractReviews two_review_page)))
   \<and> popup_posted (foldl popup_step popup_first_rendered
        (popup_pass two_review_page \<lparr>site = ''unknown'', displayedRating = None\<rparr> [Threw]))
       = [first_review, second_review]
   \<and> map text (popup_currentResults (foldl popup_step popup_first_rendered
        (popup_pass two_review_page \<lparr>site = ''unknown'', displayedRating = None\<rparr> [Threw])))
       = [''The first review, long enough.'']"
proof -
  have h: "idle first_rendered
     \<and> length [Threw] = length (take 20 (additionalReviews (currentResults first_rendered) (extractReviews two_review_page)))"
    by code_simp
  have e: "posted first_rendered @ take 20 (filter (\<lambda>r. text r \<notin> text ` set (currentResults first_rendered))
             (extractReviews two_review_page)) = [first_review, second_review]"
    by code_simp
  have f: "map text (currentResults first_rendered)
         @ map (\<lambda>(i, r). text r)
             (filter (\<lambda>(i, r). succeeded ([Threw] ! i))
                (enumerate 0 (take 20 (filter (\<lambda>r. text r \<notin> text ` set (currentResults first_rendered))
                   (extractReviews two_review_page)))))
       = [''The first review, long enough.'']"
    by code_simp
  have h': "popup_idle popup_first_rendered
     \<and> length [Threw] = length (take 20 (additionalReviews (popup_currentResults popup_first_rendered)
          (extractReviews two_review_page)))"
    by code_simp
  have e': "popup_posted popup_first_rendered
         @ take 20 (filter (\<lambda>r. text r \<notin> text ` set (popup_currentResults popup_first_rendered))
             (extractReviews two_review_page)) = [first_review, second_review]"
    by code_simp
  have f': "map text (popup_currentResults popup_first_rendered)
         @ map (\<lambda>(i, r). text r)
             (filter (\<lambda>(i, r). succeeded ([Threw] ! i))
                (enumerate 0 (take 20 (filter (\<lambda>r. text r \<notin> text ` set (popup_currentResults popup_first_rendered))
                   (extractReviews two_review_page)))))
       = [''The first review, long enough.'']"
    by code_simp
  from load_more_seen_texts[of first_rendered "[Threw]" two_review_page popup_first_rendered "[Threw]"
      two_review_page "\<lparr>site = ''unknown'', displayedRating = None\<rparr>"] h e f h' e' f'
  show ?thesis by metis
qed

text \<open>The second review, whose call threw in the first pass, is posted again by the
  second pass over the same page.\<close>

theorem load_more_resubmits_failed:
  "posted (run first_rendered (pass two_review_page [Threw])) = [first_review, second_review]
   \<and> allExtractedReviews (run first_rendered (pass two_review_page [Threw])) = [first_review, second_review]
   \<and> map text (currentResults (run first_rendered (pass two_review_page [Threw])))
       = [''The first review, long enough.'']
   \<and> posted (run (run first_rendered (pass two_review_page [Threw]))
                (pass two_review_page [Response True (Some plain_data)]))
       = [first_review, second_review, second_review]"
  by code_simp

end
